theory Spec2Isabelle
  imports Main
begin

section \<open>The WEKO SWORD mapper (\<^verbatim>\<open>weko_swordserver/mapper.py\<close>)\<close>

text \<open>
  \<^verbatim>\<open>WekoSwordMapper\<close> reshapes the metadata of a JSON document into the shape an
  item type's schema declares. The Python works on untyped JSON values and mutates the
  output dictionary in place; here a JSON value is a datatype, a mutated node is
  returned updated, and every exception is a value. The interpreter's recursion limit
  is not modelled: the recursion of each method is as deep as the path or the value.
\<close>

subsection \<open>JSON values\<close>

text \<open>
  A Python value as \<^verbatim>\<open>json.loads\<close> builds it: \<^verbatim>\<open>None\<close>, a bool, an int, a str, a
  list or a dict. A dict is an association list in insertion order; Python keeps its
  keys distinct, and \<open>dict_set\<close> below preserves that. (Floats are left out: no
  branch of the mapper but truthiness looks at a number.)
\<close>

datatype json =
    JNull
  | JBool bool
  | JInt int
  | JStr string
  | JList "json list"
  | JDict "(string \<times> json) list"

type_synonym dict = "(string \<times> json) list"

text \<open>The entries of \<^verbatim>\<open>type_of_item_type_path\<close>: the strs \<^verbatim>\<open>"object"\<close>, \<^verbatim>\<open>"array"\<close> and
  \<^verbatim>\<open>"value"\<close>, the only ones \<^verbatim>\<open>_get_type_of_item_type_path\<close> appends.\<close>

datatype kind = Object | Array | Value

text \<open>The exceptions the module can raise: its own, with the message it formats, and
  the interpreter's.\<close>

datatype message =
    NoValueGotFrom string
      \<comment> \<open>\<^verbatim>\<open>Invalid mapping: No value got from {json_key}\<close>\<close>
  | GotButStillNeed json string "string list"
      \<comment> \<open>\<^verbatim>\<open>Invalid mapping: Got {value} from {json_key} but still need to get {json_keys[1:]}\<close>\<close>
  | NoValueGotFromList
      \<comment> \<open>\<^verbatim>\<open>Invalid mapping: No value got from list\<close>\<close>
  | ListInListNotSupported
      \<comment> \<open>\<^verbatim>\<open>Invalid mapping: List in list not supported\<close>\<close>
  | GotValueFromList "string list"
      \<comment> \<open>\<^verbatim>\<open>Invalid mapping: Got value from list but still need to get {json_keys}\<close>\<close>
  | NotDefinedInSchema string
      \<comment> \<open>\<^verbatim>\<open>Invalid mapping: {item_map_key} is not defined in item type schema\<close>\<close>
  | LengthNotEqual nat nat
      \<comment> \<open>\<^verbatim>\<open>Invalid mapping: type_of_item_type_path length: {..} is not equal to item_map_keys length: {..}\<close>\<close>
  | LastMustBeValue
      \<comment> \<open>\<^verbatim>\<open>Invalid mapping: Last element of type_of_item_type_path must be value\<close>\<close>
  | TooManyDimensions json
      \<comment> \<open>\<^verbatim>\<open>Invalid mapping: {json_value} contains too many dimensions\<close>\<close>
  | ValueAtFirst
      \<comment> \<open>\<^verbatim>\<open>Invalid mapping: 'value' must be the last key of type_of_item_type_path but got at first\<close>\<close>
  | NumArrayMustBeZero
      \<comment> \<open>\<^verbatim>\<open>Invalid mapping: If diff_array is 0 and dim_json_value is 0, num_array_type must be 0 but got 1\<close>\<close>
  | Messages "string list"
      \<comment> \<open>the list \<^verbatim>\<open>error_msg\<close> of \<^verbatim>\<open>validate_mapping\<close>\<close>

datatype error =
    WekoSwordserverException message
  | IndexError
  | KeyError
  | TypeError
  | AttributeError

subsection \<open>The Python operations the mapper uses\<close>

text \<open>\<^verbatim>\<open>bool(x)\<close>, the test behind \<^verbatim>\<open>not x\<close>.\<close>

fun truthy :: "json \<Rightarrow> bool" where
  "truthy JNull = False"
| "truthy (JBool b) = b"
| "truthy (JInt i) = (i \<noteq> 0)"
| "truthy (JStr s) = (s \<noteq> [])"
| "truthy (JList xs) = (xs \<noteq> [])"
| "truthy (JDict kvs) = (kvs \<noteq> [])"

text \<open>\<^verbatim>\<open>d[k] = v\<close> on a dict: an existing key keeps its place, a new one goes last.\<close>

fun dict_set :: "dict \<Rightarrow> string \<Rightarrow> json \<Rightarrow> dict" where
  "dict_set [] k v = [(k, v)]"
| "dict_set ((k', v') # kvs) k v =
     (if k' = k then (k, v) # kvs else (k', v') # dict_set kvs k v)"

text \<open>\<^verbatim>\<open>d.get(k)\<close> on a dict: \<^verbatim>\<open>None\<close> for a missing key.\<close>

definition dict_get :: "dict \<Rightarrow> string \<Rightarrow> json" where
  "dict_get kvs k = (case map_of kvs k of None \<Rightarrow> JNull | Some v \<Rightarrow> v)"

text \<open>\<^verbatim>\<open>x.get(k)\<close> on any value: only a dict has the method.\<close>

fun py_get :: "json \<Rightarrow> string \<Rightarrow> error + json" where
  "py_get (JDict kvs) k = Inr (dict_get kvs k)"
| "py_get _ k = Inl AttributeError"

text \<open>\<^verbatim>\<open>x[k]\<close> with a str \<open>k\<close>: a dict raises \<^verbatim>\<open>KeyError\<close> for a missing key, any
  other value \<^verbatim>\<open>TypeError\<close>.\<close>

fun py_getitem :: "json \<Rightarrow> string \<Rightarrow> error + json" where
  "py_getitem (JDict kvs) k = (case map_of kvs k of None \<Rightarrow> Inl KeyError | Some v \<Rightarrow> Inr v)"
| "py_getitem _ k = Inl TypeError"

text \<open>\<^verbatim>\<open>x[k] = v\<close> with a str \<open>k\<close>: only a dict accepts it.\<close>

fun py_setitem :: "json \<Rightarrow> string \<Rightarrow> json \<Rightarrow> error + json" where
  "py_setitem (JDict kvs) k v = Inr (JDict (dict_set kvs k v))"
| "py_setitem _ k v = Inl TypeError"

text \<open>\<^verbatim>\<open>x[i]\<close> with an int \<open>i \<ge> 0\<close>: a list or a str is indexed (a str gives the
  one-character str), past the end is \<^verbatim>\<open>IndexError\<close>; a dict has no int key, since
  its keys are strs; anything else is not subscriptable.\<close>

fun py_index :: "json \<Rightarrow> nat \<Rightarrow> error + json" where
  "py_index (JList xs) i = (if i < length xs then Inr (xs ! i) else Inl IndexError)"
| "py_index (JStr s) i = (if i < length s then Inr (JStr [s ! i]) else Inl IndexError)"
| "py_index (JDict kvs) i = Inl KeyError"
| "py_index _ i = Inl TypeError"

text \<open>\<^verbatim>\<open>s.split('.')\<close>: never empty; \<^verbatim>\<open>''.split('.')\<close> is \<^verbatim>\<open>['']\<close>.\<close>

fun split_dot :: "string \<Rightarrow> string list" where
  "split_dot [] = [[]]"
| "split_dot (c # cs) =
     (if c = CHR ''.'' then [] # split_dot cs
      else (case split_dot cs of [] \<Rightarrow> [[c]] | w # ws \<Rightarrow> (c # w) # ws))"

subsection \<open>\<^verbatim>\<open>_get_dimensions\<close>\<close>

fun get_dimensions :: "json \<Rightarrow> nat" where
  "get_dimensions (JList []) = 1"
| "get_dimensions (JList (x # xs)) = 1 + get_dimensions x"
| "get_dimensions _ = 0"

subsection \<open>\<^verbatim>\<open>_get_json_metadata_value\<close>: the value at a dotted path of the document\<close>

text \<open>
  The two inner functions call each other; the \<^verbatim>\<open>for\<close> loop of \<^verbatim>\<open>_detect_list\<close> is
  \<open>detect_list_loop\<close>, which stops at the first exception and otherwise returns
  \<^verbatim>\<open>list_result\<close>. \<^verbatim>\<open>dict_\<close> is a dict at every call (the callers test
  \<^verbatim>\<open>isinstance(value, dict)\<close> first), \<^verbatim>\<open>list_\<close> a list.
\<close>

function detect_dict :: "string list \<Rightarrow> dict \<Rightarrow> bool \<Rightarrow> error + json"
  and detect_list :: "string list \<Rightarrow> json list \<Rightarrow> bool \<Rightarrow> error + json"
  and detect_list_loop :: "string list \<Rightarrow> json list \<Rightarrow> bool \<Rightarrow> error + json list"
where
  "detect_dict [] dict' in_list = Inl IndexError"
| "detect_dict (json_key # rest) dict' in_list =
     (case dict_get dict' json_key of
        JNull \<Rightarrow> Inl (WekoSwordserverException (NoValueGotFrom json_key))
      | JDict d \<Rightarrow>
          if rest = [] then Inr (JDict d) else detect_dict rest d in_list
      | JList l \<Rightarrow>
          if rest = [] then Inr (JList l) else detect_list rest l True
      | JBool b \<Rightarrow>
          if rest = [] then Inr (JBool b)
          else Inl (WekoSwordserverException (GotButStillNeed (JBool b) json_key rest))
      | JInt i \<Rightarrow>
          if rest = [] then Inr (JInt i)
          else Inl (WekoSwordserverException (GotButStillNeed (JInt i) json_key rest))
      | JStr s \<Rightarrow>
          if rest = [] then Inr (JStr s)
          else Inl (WekoSwordserverException (GotButStillNeed (JStr s) json_key rest)))"
| "detect_list json_keys list' in_list =
     (if \<not> in_list then Inl (WekoSwordserverException NoValueGotFromList)
      else (case detect_list_loop json_keys list' in_list of
              Inl e \<Rightarrow> Inl e
            | Inr list_result \<Rightarrow> Inr (JList list_result)))"
| "detect_list_loop json_keys [] in_list = Inr []"
| "detect_list_loop json_keys (v # vs) in_list =
     (case v of
        JDict d \<Rightarrow>
          (case detect_dict json_keys d in_list of
             Inl e \<Rightarrow> Inl e
           | Inr result \<Rightarrow>
               (case detect_list_loop json_keys vs in_list of
                  Inl e \<Rightarrow> Inl e
                | Inr list_result \<Rightarrow> Inr (result # list_result)))
      | JList l \<Rightarrow> Inl (WekoSwordserverException ListInListNotSupported)
      | JNull \<Rightarrow> Inl (WekoSwordserverException (GotValueFromList json_keys))
      | JBool b \<Rightarrow> Inl (WekoSwordserverException (GotValueFromList json_keys))
      | JInt i \<Rightarrow> Inl (WekoSwordserverException (GotValueFromList json_keys))
      | JStr s \<Rightarrow> Inl (WekoSwordserverException (GotValueFromList json_keys)))"
  by pat_completeness auto
termination
  by (relation "measures
        [\<lambda>x. case x of
            Inl (ks, _, _) \<Rightarrow> 3 * length ks
          | Inr (Inl (ks, _, _)) \<Rightarrow> 3 * length ks + 2
          | Inr (Inr (ks, _, _)) \<Rightarrow> 3 * length ks + 1,
         \<lambda>x. case x of
            Inl _ \<Rightarrow> 0
          | Inr (Inl _) \<Rightarrow> 0
          | Inr (Inr (_, vs, _)) \<Rightarrow> length vs]") auto

text \<open>
  The method itself. \<open>json\<close> is \<^verbatim>\<open>self.json\<close>. The result \<open>JNull\<close> is Python's
  \<^verbatim>\<open>None\<close>: the top-level key is missing (or null), and the caller skips the rule.
\<close>

definition get_json_metadata_value :: "json \<Rightarrow> string \<Rightarrow> error + json" where
  "get_json_metadata_value json json_map_key =
     (case split_dot json_map_key of
        [] \<Rightarrow> Inl IndexError
      | json_key # rest \<Rightarrow>
          (case py_getitem json ''record'' of
             Inl e \<Rightarrow> Inl e
           | Inr record \<Rightarrow>
               (case py_getitem record ''metadata'' of
                  Inl e \<Rightarrow> Inl e
                | Inr metadata \<Rightarrow>
                    (case py_get metadata json_key of
                       Inl e \<Rightarrow> Inl e
                     | Inr JNull \<Rightarrow> Inr JNull
                     | Inr (JDict d) \<Rightarrow>
                         if rest = [] then Inr (JDict d) else detect_dict rest d False
                     | Inr (JList l) \<Rightarrow> detect_list rest l True
                     | Inr v \<Rightarrow>
                         if rest = [] then Inr v
                         else Inl (WekoSwordserverException
                                     (GotButStillNeed v json_key rest))))))"

subsection \<open>\<^verbatim>\<open>_get_type_of_item_type_path\<close>: the kinds along a dotted path of the schema\<close>

text \<open>\<^verbatim>\<open>k in x\<close> for a str \<open>k\<close>: a key of a dict, an element of a list, a substring of
  a str; any other value is not iterable.\<close>

fun is_substring :: "string \<Rightarrow> string \<Rightarrow> bool" where
  "is_substring k [] = (k = [])"
| "is_substring k (c # cs) = (take (length k) (c # cs) = k \<or> is_substring k cs)"

fun py_contains :: "json \<Rightarrow> string \<Rightarrow> error + bool" where
  "py_contains (JDict kvs) k = Inr (map_of kvs k \<noteq> None)"
| "py_contains (JList xs) k = Inr (JStr k \<in> set xs)"
| "py_contains (JStr s) k = Inr (is_substring k s)"
| "py_contains _ k = Inl TypeError"

text \<open>
  The \<^verbatim>\<open>for\<close> loop over \<^verbatim>\<open>item_map_keys\<close>, with \<^verbatim>\<open>current_schema\<close> and the list
  \<^verbatim>\<open>type_of_item_type_path\<close> built so far as its state. The \<^verbatim>\<open>else\<close> branch appends
  \<^verbatim>\<open>"value"\<close> and goes on with the next key in the same \<^verbatim>\<open>current_schema\<close>.
\<close>

fun type_loop :: "string list \<Rightarrow> json \<Rightarrow> kind list \<Rightarrow> error + kind list" where
  "type_loop [] current_schema type_of_item_type_path = Inr type_of_item_type_path"
| "type_loop (item_map_key # ks) current_schema type_of_item_type_path =
     (case py_contains current_schema item_map_key of
        Inl e \<Rightarrow> Inl e
      | Inr False \<Rightarrow> Inl (WekoSwordserverException (NotDefinedInSchema item_map_key))
      | Inr True \<Rightarrow>
          (case py_getitem current_schema item_map_key of
             Inl e \<Rightarrow> Inl e
           | Inr entry \<Rightarrow>
               (case py_get entry ''type'' of
                  Inl e \<Rightarrow> Inl e
                | Inr t \<Rightarrow>
                    if t = JStr ''object'' then
                      (case py_get entry ''properties'' of
                         Inl e \<Rightarrow> Inl e
                       | Inr s \<Rightarrow> type_loop ks s (type_of_item_type_path @ [Object]))
                    else if t = JStr ''array'' then
                      (case py_get entry ''items'' of
                         Inl e \<Rightarrow> Inl e
                       | Inr items \<Rightarrow>
                           (case py_get items ''properties'' of
                              Inl e \<Rightarrow> Inl e
                            | Inr s \<Rightarrow> type_loop ks s (type_of_item_type_path @ [Array])))
                    else type_loop ks current_schema (type_of_item_type_path @ [Value]))))"

text \<open>\<open>schema\<close> is \<^verbatim>\<open>self.itemtype.schema\<close>.\<close>

definition get_type_of_item_type_path :: "json \<Rightarrow> string \<Rightarrow> error + kind list" where
  "get_type_of_item_type_path schema item_map_key =
     (let item_map_keys = split_dot item_map_key in
      case py_get schema ''properties'' of
        Inl e \<Rightarrow> Inl e
      | Inr current_schema \<Rightarrow>
          (case type_loop item_map_keys current_schema [] of
             Inl e \<Rightarrow> Inl e
           | Inr type_of_item_type_path \<Rightarrow>
               if length type_of_item_type_path \<noteq> length item_map_keys then
                 Inl (WekoSwordserverException
                        (LengthNotEqual (length type_of_item_type_path) (length item_map_keys)))
               else if type_of_item_type_path = [] then Inl IndexError
               else if last type_of_item_type_path \<noteq> Value then
                 Inl (WekoSwordserverException LastMustBeValue)
               else Inr type_of_item_type_path))"

subsection \<open>\<^verbatim>\<open>_create_child_metadata_of_a_property\<close>: writing below the first key\<close>

text \<open>
  The builder mutates the node it is given. Here it returns the node as the call leaves
  it, with the exception if one was raised: the writes made before an exception stay in
  the tree, as they do in Python. A caller that descended into \<^verbatim>\<open>metadata[k]\<close> or
  \<^verbatim>\<open>metadata[k][i]\<close> puts the returned child back in its place. This is the mutation
  itself as long as no node the builder writes into is reachable along two paths; the
  dicts and lists the builder makes (\<^verbatim>\<open>{}\<close>, \<^verbatim>\<open>[{}]\<close>, \<^verbatim>\<open>[{} for _ in ...]\<close>) are new
  objects, and it writes only into nodes above the leaf of a rule.
\<close>

type_synonym outcome = "json \<times> error option"

text \<open>\<^verbatim>\<open>if json_value is not None: child_metadata[k] = json_value\<close>\<close>

definition write_leaf :: "json \<Rightarrow> string \<Rightarrow> json \<Rightarrow> outcome" where
  "write_leaf child_metadata k json_value =
     (if json_value \<noteq> JNull then
        (case py_setitem child_metadata k json_value of
           Inl e \<Rightarrow> (child_metadata, Some e)
         | Inr m \<Rightarrow> (m, None))
      else (child_metadata, None))"

text \<open>\<^verbatim>\<open>if not metadata.get(k): metadata[k] = fresh\<close>, on a dict.\<close>

definition ensure :: "dict \<Rightarrow> string \<Rightarrow> json \<Rightarrow> dict" where
  "ensure kvs k fresh = (if \<not> truthy (dict_get kvs k) then dict_set kvs k fresh else kvs)"

text \<open>The element at index \<open>i\<close> of a container after the callee has mutated it: a list
  holds the mutated element; a str is immutable, and so are its characters.\<close>

fun put_index :: "json \<Rightarrow> nat \<Rightarrow> json \<Rightarrow> json" where
  "put_index (JList xs) i x = JList (xs[i := x])"
| "put_index c i x = c"

text \<open>
  \<open>create_child_each\<close> is the loop
  \<^verbatim>\<open>for i in range(len(json_value)): self._create_child_metadata_of_a_property(diff_array, child_metadata[i], item_map_keys[1:], type_of_item_type_path[1:], json_value[i])\<close>
  from index \<open>i\<close> on, over the elements of \<^verbatim>\<open>json_value\<close> that remain; its keys and
  types are already the tails.
\<close>

function create_child_metadata_of_a_property ::
    "int \<Rightarrow> json \<Rightarrow> string list \<Rightarrow> kind list \<Rightarrow> json \<Rightarrow> outcome"
  and create_child_each ::
    "int \<Rightarrow> json \<Rightarrow> string list \<Rightarrow> kind list \<Rightarrow> json list \<Rightarrow> nat \<Rightarrow> outcome"
where
  "create_child_metadata_of_a_property diff_array child_metadata [] types json_value =
     (child_metadata, Some IndexError)"
| "create_child_metadata_of_a_property diff_array child_metadata [k] types json_value =
     write_leaf child_metadata k json_value"
| "create_child_metadata_of_a_property diff_array child_metadata (k # k2 # ks) [] json_value =
     (child_metadata, Some IndexError)"
| "create_child_metadata_of_a_property diff_array child_metadata (k # k2 # ks) (Value # ts) json_value =
     write_leaf child_metadata k json_value"
| "create_child_metadata_of_a_property diff_array child_metadata (k # k2 # ks) (Object # ts) json_value =
     (case child_metadata of
        JDict kvs \<Rightarrow>
          (let kvs1 = ensure kvs k (JDict []) in
           case create_child_metadata_of_a_property diff_array (dict_get kvs1 k)
                  (k2 # ks) ts json_value of
             (sub, err) \<Rightarrow> (JDict (dict_set kvs1 k sub), err))
      | _ \<Rightarrow> (child_metadata, Some AttributeError))"
| "create_child_metadata_of_a_property diff_array child_metadata (k # k2 # ks) (Array # ts) json_value =
     (if diff_array > 0 then
        (case child_metadata of
           JDict kvs \<Rightarrow>
             (let kvs1 = ensure kvs k (JList [JDict []]) in
              case py_index (dict_get kvs1 k) 0 of
                Inl e \<Rightarrow> (JDict kvs1, Some e)
              | Inr elem \<Rightarrow>
                  (case create_child_metadata_of_a_property (diff_array - 1) elem
                          (k2 # ks) ts json_value of
                     (sub, err) \<Rightarrow>
                       (JDict (dict_set kvs1 k (put_index (dict_get kvs1 k) 0 sub)), err)))
         | _ \<Rightarrow> (child_metadata, Some AttributeError))
      else if get_dimensions json_value = 0 then
        (child_metadata, Some (WekoSwordserverException NumArrayMustBeZero))
      else
        (case json_value of
           JList vs \<Rightarrow>
             (case child_metadata of
                JDict kvs \<Rightarrow>
                  (let kvs1 = ensure kvs k (JList (replicate (length vs) (JDict []))) in
                   case create_child_each diff_array (dict_get kvs1 k) (k2 # ks) ts vs 0 of
                     (lst, err) \<Rightarrow> (JDict (dict_set kvs1 k lst), err))
              | _ \<Rightarrow> (child_metadata, Some AttributeError))
         | _ \<Rightarrow> (child_metadata, Some TypeError)))"
| "create_child_each diff_array container keys types [] i = (container, None)"
| "create_child_each diff_array container keys types (v # vs) i =
     (case py_index container i of
        Inl e \<Rightarrow> (container, Some e)
      | Inr elem \<Rightarrow>
          (case create_child_metadata_of_a_property diff_array elem keys types v of
             (sub, Some e) \<Rightarrow> (put_index container i sub, Some e)
           | (sub, None) \<Rightarrow>
               create_child_each diff_array (put_index container i sub) keys types vs (Suc i)))"
  by pat_completeness auto
termination
  by (relation "measures
        [\<lambda>x. case x of
            Inl (_, _, ks, _, _) \<Rightarrow> 2 * length ks
          | Inr (_, _, ks, _, _, _) \<Rightarrow> 2 * length ks + 1,
         \<lambda>x. case x of
            Inl _ \<Rightarrow> 0
          | Inr (_, _, _, _, vs, _) \<Rightarrow> length vs]") auto

subsection \<open>\<^verbatim>\<open>_create_metadata_of_a_property\<close>: applying one rule to the output tree\<close>

text \<open>
  The first step compares the dimensions of the value with the number of
  \<^verbatim>\<open>"array"\<close> entries and, when the value is one list too deep, goes on with
  \<^verbatim>\<open>json_value[0]\<close>; \<open>reconcile_dimensions\<close> returns the value to go on with.
\<close>

definition reconcile_dimensions :: "json \<Rightarrow> nat \<Rightarrow> error + json" where
  "reconcile_dimensions json_value num_array_type =
     (let dim_json_value = get_dimensions json_value in
      if dim_json_value > num_array_type then
        if dim_json_value - num_array_type = 1 then py_index json_value 0
        else Inl (WekoSwordserverException (TooManyDimensions json_value))
      else Inr json_value)"

text \<open>\<^verbatim>\<open>metadata[k] = x\<close>\<close>

definition set_leaf :: "json \<Rightarrow> string \<Rightarrow> json \<Rightarrow> outcome" where
  "set_leaf metadata k x =
     (case py_setitem metadata k x of
        Inl e \<Rightarrow> (metadata, Some e)
      | Inr m \<Rightarrow> (m, None))"

definition create_metadata_of_a_property ::
    "json \<Rightarrow> string \<Rightarrow> kind list \<Rightarrow> json \<Rightarrow> outcome" where
  "create_metadata_of_a_property metadata item_map_key type_of_item_type_path json_value0 =
     (let item_map_keys = split_dot item_map_key;
          num_array_type = count_list type_of_item_type_path Array
      in
      case reconcile_dimensions json_value0 num_array_type of
        Inl e \<Rightarrow> (metadata, Some e)
      | Inr json_value \<Rightarrow>
          (let dim_json_value = get_dimensions json_value;
               diff_array = int num_array_type - int dim_json_value
           in
           case item_map_keys of
             [] \<Rightarrow> (metadata, Some IndexError)
           | [k] \<Rightarrow>
               if dim_json_value > 0 then
                 (case py_index json_value 0 of
                    Inl e \<Rightarrow> (metadata, Some e)
                  | Inr x \<Rightarrow> set_leaf metadata k x)
               else set_leaf metadata k json_value
           | k # k2 # ks \<Rightarrow>
               (case type_of_item_type_path of
                  [] \<Rightarrow> (metadata, Some IndexError)
                | Value # ts \<Rightarrow> (metadata, Some (WekoSwordserverException ValueAtFirst))
                | Object # ts \<Rightarrow>
                    (case metadata of
                       JDict kvs \<Rightarrow>
                         (let kvs1 = ensure kvs k (JDict []) in
                          case create_child_metadata_of_a_property diff_array (dict_get kvs1 k)
                                 (k2 # ks) ts json_value of
                            (sub, err) \<Rightarrow> (JDict (dict_set kvs1 k sub), err))
                     | _ \<Rightarrow> (metadata, Some AttributeError))
                | Array # ts \<Rightarrow>
                    if diff_array > 0 then
                      (case metadata of
                         JDict kvs \<Rightarrow>
                           (let kvs1 = ensure kvs k (JList [JDict []]) in
                            case py_index (dict_get kvs1 k) 0 of
                              Inl e \<Rightarrow> (JDict kvs1, Some e)
                            | Inr elem \<Rightarrow>
                                (case create_child_metadata_of_a_property (diff_array - 1) elem
                                        (k2 # ks) ts json_value of
                                   (sub, err) \<Rightarrow>
                                     (JDict (dict_set kvs1 k (put_index (dict_get kvs1 k) 0 sub)),
                                      err)))
                       | _ \<Rightarrow> (metadata, Some AttributeError))
                    else if dim_json_value = 0 then
                      (metadata, Some (WekoSwordserverException NumArrayMustBeZero))
                    else
                      (case json_value of
                         JList vs \<Rightarrow>
                           (case metadata of
                              JDict kvs \<Rightarrow>
                                (let kvs1 = ensure kvs k
                                              (JList (replicate (length vs) (JDict []))) in
                                 case create_child_each diff_array (dict_get kvs1 k)
                                        (k2 # ks) ts vs 0 of
                                   (lst, err) \<Rightarrow> (JDict (dict_set kvs1 k lst), err))
                            | _ \<Rightarrow> (metadata, Some AttributeError))
                       | _ \<Rightarrow> (metadata, Some TypeError)))))"

subsection \<open>The mapper and its passes\<close>

text \<open>
  \<^verbatim>\<open>WekoSwordMapper\<close> with the fields its methods read: \<^verbatim>\<open>self.json\<close>,
  \<^verbatim>\<open>self.itemtype.schema\<close> and \<^verbatim>\<open>self.json_map\<close>. The methods it inherits from
  \<^verbatim>\<open>JsonMapper\<close> (\<^verbatim>\<open>invenio_oaiharvester.harvester\<close>) are given by what they return:
  \<^verbatim>\<open>is_deleted()\<close>, \<^verbatim>\<open>str(self.datestamp())\<close> and the dict of \<^verbatim>\<open>_create_item_map()\<close>.
  \<^verbatim>\<open>json_map\<close> and the item map are dicts from rule id to dotted path, in insertion
  order.
\<close>

record mapper =
  json :: json
  schema :: json
  json_map :: "(string \<times> string) list"
  is_deleted :: bool
  datestamp :: string
  item_map :: "(string \<times> string) list"

text \<open>The loop of \<^verbatim>\<open>_create_metadata\<close> over \<^verbatim>\<open>self.json_map.items()\<close>, with
  \<^verbatim>\<open>metadata\<close> as its state; an exception ends the pass.\<close>

fun create_metadata_loop ::
    "mapper \<Rightarrow> (string \<times> string) list \<Rightarrow> (string \<times> string) list \<Rightarrow> json \<Rightarrow> error + json" where
  "create_metadata_loop m imap [] metadata = Inr metadata"
| "create_metadata_loop m imap ((k, v) # rules) metadata =
     (case get_json_metadata_value (json m) v of
        Inl e \<Rightarrow> Inl e
      | Inr json_value \<Rightarrow>
          if json_value = JNull then create_metadata_loop m imap rules metadata
          else
            (case map_of imap k of
               None \<Rightarrow> Inl KeyError
             | Some path \<Rightarrow>
                 (case get_type_of_item_type_path (schema m) path of
                    Inl e \<Rightarrow> Inl e
                  | Inr type_of_item_type_path \<Rightarrow>
                      (case create_metadata_of_a_property metadata path
                              type_of_item_type_path json_value of
                         (metadata', Some e) \<Rightarrow> Inl e
                       | (metadata', None) \<Rightarrow> create_metadata_loop m imap rules metadata'))))"

definition create_metadata :: "mapper \<Rightarrow> (string \<times> string) list \<Rightarrow> error + json" where
  "create_metadata m imap = create_metadata_loop m imap (json_map m) (JDict [])"

text \<open>The loop of \<^verbatim>\<open>map\<close> over the schema's properties, collecting \<^verbatim>\<open>files_info\<close>.\<close>

fun files_info_loop :: "dict \<Rightarrow> json \<Rightarrow> error + json list" where
  "files_info_loop [] metadata = Inr []"
| "files_info_loop ((k, v) # props) metadata =
     (case py_get v ''title'' of
        Inl e \<Rightarrow> Inl e
      | Inr title \<Rightarrow>
          if title = JStr ''File'' then
            (case py_get metadata k of
               Inl e \<Rightarrow> Inl e
             | Inr items \<Rightarrow>
                 (case files_info_loop props metadata of
                    Inl e \<Rightarrow> Inl e
                  | Inr files_info \<Rightarrow>
                      Inr (JDict [(''key'', JStr k), (''items'', items)] # files_info)))
          else files_info_loop props metadata)"

text \<open>\<^verbatim>\<open>{**a, **b}\<close>: the items of \<open>b\<close> set in \<open>a\<close>, in order.\<close>

definition dict_merge :: "dict \<Rightarrow> dict \<Rightarrow> dict" where
  "dict_merge a b = fold (\<lambda>(k, v) acc. dict_set acc k v) b a"

text \<open>\<^verbatim>\<open>self.json.get("record").get("header").get(field)\<close>\<close>

definition header_field :: "json \<Rightarrow> string \<Rightarrow> error + json" where
  "header_field doc field =
     (case py_get doc ''record'' of
        Inl e \<Rightarrow> Inl e
      | Inr record \<Rightarrow>
          (case py_get record ''header'' of
             Inl e \<Rightarrow> Inl e
           | Inr header \<Rightarrow> py_get header field))"

text \<open>\<^verbatim>\<open>map\<close> (the name is taken in HOL).\<close>

definition map_sword :: "mapper \<Rightarrow> error + json" where
  "map_sword m =
     (if is_deleted m then Inr (JDict [])
      else
        (case header_field (json m) ''publish_status'' of
           Inl e \<Rightarrow> Inl e
         | Inr publish_status \<Rightarrow>
             (case header_field (json m) ''indextree'' of
                Inl e \<Rightarrow> Inl e
              | Inr indextree \<Rightarrow>
                  (let res = [(''pubdate'', JStr (datestamp m)),
                              (''publish_status'', publish_status),
                              (''path'', JList [indextree])]
                   in
                   case create_metadata m (item_map m) of
                     Inl e \<Rightarrow> Inl e
                   | Inr metadata \<Rightarrow>
                       (case py_get (schema m) ''properties'' of
                          Inl e \<Rightarrow> Inl e
                        | Inr (JDict props) \<Rightarrow>
                            (case files_info_loop props metadata of
                               Inl e \<Rightarrow> Inl e
                             | Inr files_info \<Rightarrow>
                                 (case metadata of
                                    JDict md \<Rightarrow>
                                      Inr (JDict (dict_merge
                                             (dict_merge res [(''files_info'', JList files_info)])
                                             md))
                                  | _ \<Rightarrow> Inl TypeError))
                        | Inr _ \<Rightarrow> Inl AttributeError)))))"

subsection \<open>\<^verbatim>\<open>validate_mapping\<close> and \<^verbatim>\<open>is_valid_mapping\<close>\<close>

text \<open>The loop over \<^verbatim>\<open>self.json_map.items()\<close>, returning \<^verbatim>\<open>error_msg\<close>.\<close>

fun validate_loop :: "(string \<times> string) list \<Rightarrow> (string \<times> string) list \<Rightarrow> string list \<Rightarrow> string list" where
  "validate_loop imap [] error_msg = error_msg"
| "validate_loop imap ((k, v) # rules) error_msg =
     (if map_of imap k = None then validate_loop imap rules (error_msg @ [k @ '' is not defined.''])
      else validate_loop imap rules error_msg)"

definition validate_mapping :: "mapper \<Rightarrow> error + unit" where
  "validate_mapping m =
     (let error_msg = validate_loop (item_map m) (json_map m) [] in
      if error_msg \<noteq> [] then Inl (WekoSwordserverException (Messages error_msg))
      else Inr ())"

text \<open>\<^verbatim>\<open>try: self.validate_mapping()  except WekoSwordserverException: return False\<close>;
  any other exception passes through.\<close>

definition is_valid_mapping :: "mapper \<Rightarrow> error + bool" where
  "is_valid_mapping m =
     (case validate_mapping m of
        Inl (WekoSwordserverException msg) \<Rightarrow> Inr False
      | Inl e \<Rightarrow> Inl e
      | Inr u \<Rightarrow> Inr True)"

subsection \<open>Example inputs\<close>

text \<open>A schema with two scalar properties side by side.\<close>

definition sibling_schema :: json where
  "sibling_schema =
     JDict [(''properties'',
       JDict [(''a'', JDict [(''type'', JStr ''string'')]),
              (''b'', JDict [(''type'', JStr ''string'')])])]"

text \<open>A document whose metadata holds a list of strs under the key \<^verbatim>\<open>k\<close>.\<close>

definition list_document :: json where
  "list_document =
     JDict [(''record'',
       JDict [(''metadata'', JDict [(''k'', JList [JStr ''x'', JStr ''y''])])])]"

text \<open>A mapper for a deleted record. Its document has no header and its rule has no
  target path: any step after the test of \<^verbatim>\<open>is_deleted()\<close> would raise.\<close>

definition deleted_mapper :: mapper where
  "deleted_mapper =
     \<lparr> json = JNull, schema = JNull, json_map = [(''r1'', ''a.b'')],
       is_deleted = True, datestamp = ''2024-01-01'', item_map = [] \<rparr>"

text \<open>A mapper whose rule \<^verbatim>\<open>r2\<close> has a source path and no target path.\<close>

definition partial_mapper :: mapper where
  "partial_mapper =
     \<lparr> json = JDict [], schema = JDict [],
       json_map = [(''r1'', ''a''), (''r2'', ''b''), (''r3'', ''c'')],
       is_deleted = False, datestamp = ''2024-01-01'',
       item_map = [(''r1'', ''x''), (''r3'', ''z'')] \<rparr>"

section \<open>Properties\<close>

subsection \<open>Schema-side path resolution\<close>

text \<open>Every round of the loop appends one kind or raises, so a list that the loop
  returns has one kind for each key.\<close>

lemma type_loop_length:
  "type_loop ks s acc = Inr ts \<Longrightarrow> length ts = length acc + length ks"
proof (induction ks arbitrary: s acc)
  case Nil
  then show ?case by simp
next
  case (Cons k ks)
  then show ?case
    by (fastforce split: sum.splits bool.splits if_splits)
qed

text \<open>
  Claim C1: when a segment before the last is declared with a scalar kind, resolving the
  path against the schema fails, so that no returned kind sequence has \<open>Value\<close> before
  its last position.

  The loop has no exit after a scalar kind: it looks the next segment up in the schema
  level it is in. Where that level declares the next segment too, the method returns a
  sequence with \<open>Value\<close> before the end; the length check after the loop cannot fail
  (\<open>type_loop_length\<close>).
  For the schema with the scalar properties \<^verbatim>\<open>a\<close> and \<^verbatim>\<open>b\<close> and the path \<^verbatim>\<open>a.b\<close>:
\<close>

theorem kinds_value_before_last:
  "get_type_of_item_type_path sibling_schema ''a.b'' = Inr [Value, Value]"
  by (simp add: get_type_of_item_type_path_def sibling_schema_def dict_get_def)

subsection \<open>Source-side path resolution\<close>

text \<open>
  Claim C2: in list mode a scalar element is valid when no segments remain, so a
  one-segment path to a top-level list of scalars returns that list.

  At the top level the list branch calls \<^verbatim>\<open>_detect_list\<close> without the test
  \<^verbatim>\<open>len(json_keys) == 1\<close> that \<^verbatim>\<open>_detect_dict\<close> makes, and \<^verbatim>\<open>_detect_list\<close> raises for
  every scalar element, whatever keys remain. For the path \<^verbatim>\<open>k\<close> and the list
  \<^verbatim>\<open>["x", "y"]\<close>:
\<close>

theorem top_level_list_of_scalars_raises:
  "get_json_metadata_value list_document ''k'' =
     Inl (WekoSwordserverException (GotValueFromList []))"
  by (simp add: get_json_metadata_value_def list_document_def dict_get_def)

subsection \<open>Dimensions\<close>

text \<open>
  Claim C5: a value that is not a list has dimension 0, the empty list has dimension 1,
  and a non-empty list has one more than its first element, whatever the other elements
  are; \<^verbatim>\<open>[[1, 2], "x"]\<close> has dimension 2.
\<close>

theorem get_dimensions_first_element:
  "(\<forall>v. (\<forall>xs. v \<noteq> JList xs) \<longrightarrow> get_dimensions v = 0)
   \<and> get_dimensions (JList []) = 1
   \<and> (\<forall>x xs. get_dimensions (JList (x # xs)) = 1 + get_dimensions x)
   \<and> get_dimensions (JList [JList [JInt 1, JInt 2], JStr ''x'']) = 2"
proof -
  have "get_dimensions v = 0" if "\<forall>xs. v \<noteq> JList xs" for v
    using that by (cases v) simp_all
  then show ?thesis by simp
qed

theorem get_dimensions_first_element_witness:
  "get_dimensions (JStr ''x'') = 0
   \<and> get_dimensions (JDict [(''k'', JList [])]) = 0
   \<and> get_dimensions (JList [JList [JInt 1, JInt 2], JList [JInt 3, JInt 4]]) = 2"
proof -
  have a: "\<forall>xs. JStr ''x'' \<noteq> JList xs" by simp
  have b: "\<forall>xs. JDict [(''k'', JList [])] \<noteq> JList xs" by simp
  from get_dimensions_first_element a b show ?thesis by simp
qed

subsection \<open>Validation of the mapping\<close>

lemma validate_loop_eq:
  "validate_loop imap rules acc =
     acc @ map (\<lambda>k. k @ '' is not defined.'')
             (filter (\<lambda>k. map_of imap k = None) (map fst rules))"
  by (induction imap rules acc rule: validate_loop.induct) simp_all

lemma count_list_filter:
  "count_list (filter P xs) k = (if P k then count_list xs k else 0)"
  by (induction xs) auto

lemma count_list_map_inj:
  "inj f \<Longrightarrow> count_list (map f xs) (f k) = count_list xs k"
  by (induction xs) (auto dest: injD)

lemma count_list_distinct:
  "distinct xs \<Longrightarrow> count_list xs k = (if k \<in> set xs then 1 else 0)"
  by (induction xs) auto

lemma inj_not_defined: "inj (\<lambda>k. k @ '' is not defined.'')"
  by (rule injI) simp

text \<open>
  Claim C8: validation makes one message \<^verbatim>\<open>{id} is not defined.\<close> for each rule id of
  the source-path table that the target-path table lacks, raises all of them in one
  exception, raises nothing when none is missing, and \<^verbatim>\<open>is_valid_mapping\<close> is true
  exactly when there is no violation.

  The messages are those of the missing ids in the order of the source-path table; as
  the keys of a dict are distinct, each missing id has exactly one.
\<close>

theorem validate_mapping_collects_all:
  "(let missing = filter (\<lambda>k. map_of (item_map m) k = None) (map fst (json_map m));
        violations = map (\<lambda>k. k @ '' is not defined.'') missing
    in validate_mapping m =
         (if missing = [] then Inr ()
          else Inl (WekoSwordserverException (Messages violations)))
       \<and> is_valid_mapping m = Inr (violations = [])
       \<and> (distinct (map fst (json_map m)) \<longrightarrow>
            (\<forall>k. count_list violations (k @ '' is not defined.'') =
               (if k \<in> fst ` set (json_map m) \<and> k \<notin> fst ` set (item_map m)
                then 1 else 0))))"
proof -
  define missing
    where "missing = filter (\<lambda>k. map_of (item_map m) k = None) (map fst (json_map m))"
  define violations where "violations = map (\<lambda>k. k @ '' is not defined.'') missing"
  have v: "validate_loop (item_map m) (json_map m) [] = violations"
    by (simp add: validate_loop_eq violations_def missing_def)
  have e: "(violations = []) = (missing = [])"
    by (simp add: violations_def)
  have 1: "validate_mapping m =
           (if missing = [] then Inr ()
            else Inl (WekoSwordserverException (Messages violations)))"
    by (simp add: validate_mapping_def v e)
  have 2: "is_valid_mapping m = Inr (violations = [])"
    by (simp add: is_valid_mapping_def 1 e)
  have 3: "count_list violations (k @ '' is not defined.'') =
             (if k \<in> fst ` set (json_map m) \<and> k \<notin> fst ` set (item_map m) then 1 else 0)"
    if d: "distinct (map fst (json_map m))" for k
  proof -
    have "count_list violations (k @ '' is not defined.'') = count_list missing k"
      unfolding violations_def using inj_not_defined by (rule count_list_map_inj)
    also have "\<dots> =
        (if map_of (item_map m) k = None then count_list (map fst (json_map m)) k else 0)"
      by (simp add: missing_def count_list_filter)
    also have "\<dots> =
        (if k \<in> fst ` set (json_map m) \<and> k \<notin> fst ` set (item_map m) then 1 else 0)"
      using d by (simp add: count_list_distinct map_of_eq_None_iff)
    finally show ?thesis .
  qed
  from 1 2 3 show ?thesis
    unfolding Let_def missing_def [symmetric] violations_def [symmetric] by blast
qed

theorem validate_mapping_collects_all_witness:
  "validate_mapping partial_mapper =
     Inl (WekoSwordserverException (Messages [''r2 is not defined.'']))
   \<and> is_valid_mapping partial_mapper = Inr False
   \<and> distinct (map fst (json_map partial_mapper))
   \<and> count_list [''r2 is not defined.''] (''r2'' @ '' is not defined.'') = 1"
proof -
  have d: "distinct (map fst (json_map partial_mapper))"
    by (simp add: partial_mapper_def)
  from validate_mapping_collects_all [of partial_mapper] d show ?thesis
    by (simp add: partial_mapper_def Let_def)
qed

subsection \<open>The full pass on a deleted record\<close>

text \<open>
  Claim C9: for a record that is marked as deleted, \<^verbatim>\<open>map\<close> returns the empty dict at
  once, whatever the document, the mapping table and the schema hold: no header field
  is read and no rule is applied.
\<close>

theorem map_deleted_is_empty:
  "is_deleted m \<Longrightarrow> map_sword m = Inr (JDict [])"
  by (simp add: map_sword_def)

text \<open>The same mapper, were it not deleted, would raise at the first header field.\<close>

theorem map_deleted_is_empty_witness:
  "is_deleted deleted_mapper \<and> map_sword deleted_mapper = Inr (JDict [])
   \<and> map_sword (deleted_mapper\<lparr>is_deleted := False\<rparr>) = Inl AttributeError"
proof -
  have d: "is_deleted deleted_mapper" by (simp add: deleted_mapper_def)
  have n: "map_sword (deleted_mapper\<lparr>is_deleted := False\<rparr>) = Inl AttributeError"
    by (simp add: map_sword_def deleted_mapper_def header_field_def)
  from map_deleted_is_empty [OF d] d n show ?thesis by simp
qed

subsection \<open>Facts about paths and dicts\<close>

lemma split_dot_no_dot: "CHR ''.'' \<notin> set p \<Longrightarrow> split_dot p = [p]"
  by (induction p) auto

lemma split_dot_append:
  "CHR ''.'' \<notin> set p \<Longrightarrow> split_dot (p @ CHR ''.'' # rest) = p # split_dot rest"
  by (induction p) auto

lemma split_dot_two:
  "CHR ''.'' \<notin> set p \<Longrightarrow> CHR ''.'' \<notin> set q \<Longrightarrow>
   split_dot (p @ CHR ''.'' # q) = [p, q]"
  by (simp add: split_dot_append split_dot_no_dot)

lemma dict_set_fresh: "map_of kvs k = None \<Longrightarrow> dict_set kvs k v = kvs @ [(k, v)]"
  by (induction kvs) (auto split: if_splits)

lemma dict_get_fresh: "map_of kvs k = None \<Longrightarrow> dict_get kvs k = JNull"
  by (simp add: dict_get_def)

lemma dict_get_append_fresh:
  "map_of kvs k = None \<Longrightarrow> dict_get (kvs @ [(k, v)]) k = v"
  by (simp add: dict_get_def map_add_def)

lemma dict_set_append_fresh:
  "map_of kvs k = None \<Longrightarrow> dict_set (kvs @ [(k, v)]) k w = kvs @ [(k, w)]"
  by (induction kvs) (auto split: if_splits)

lemma write_leaf_empty:
  "write_leaf (JDict []) q v = (if v = JNull then JDict [] else JDict [(q, v)], None)"
  by (simp add: write_leaf_def)

lemma each_replicate:
  "create_child_each d (JList (pre @ replicate (length vs) (JDict []))) [q] ts vs
     (length pre) =
     (JList (pre @ map (\<lambda>v. if v = JNull then JDict [] else JDict [(q, v)]) vs), None)"
proof (induction vs arbitrary: pre)
  case Nil
  then show ?case by simp
next
  case (Cons v vs)
  let ?o = "if v = JNull then JDict [] else JDict [(q, v)]"
  have "create_child_each d (JList ((pre @ [?o]) @ replicate (length vs) (JDict [])))
          [q] ts vs (length (pre @ [?o])) =
        (JList ((pre @ [?o]) @ map (\<lambda>v. if v = JNull then JDict [] else JDict [(q, v)]) vs),
         None)"
    by (rule Cons.IH)
  then show ?case
    by (simp add: nth_append write_leaf_empty list_update_append)
qed

lemma dims_flat: "\<forall>v\<in>set vs. get_dimensions v = 0 \<Longrightarrow> get_dimensions (JList vs) = 1"
  by (cases vs) simp_all

subsection \<open>What one call of the builder does to a node\<close>

lemma map_of_dict_set: "map_of (dict_set kvs k v) = (map_of kvs)(k \<mapsto> v)"
  by (induction kvs) (auto simp: fun_eq_iff)

lemma dict_get_dict_set [simp]: "dict_get (dict_set kvs k v) k = v"
  by (simp add: dict_get_def map_of_dict_set)

lemma dict_set_dict_set [simp]: "dict_set (dict_set kvs k v) k w = dict_set kvs k w"
  by (induction kvs) auto

lemma dict_set_not_Nil [simp]: "dict_set kvs k v \<noteq> []"
  by (cases kvs) (auto split: if_splits)

lemma dict_set_same: "map_of kvs k = Some v \<Longrightarrow> dict_set kvs k v = kvs"
  by (induction kvs) (auto split: if_splits)

lemma truthy_dict_get: "truthy (dict_get kvs k) \<Longrightarrow> map_of kvs k = Some (dict_get kvs k)"
  by (auto simp: dict_get_def split: option.splits)

lemma ensure_not_Nil: "kvs \<noteq> [] \<Longrightarrow> ensure kvs k f \<noteq> []"
  by (simp add: ensure_def)

lemma ensure_cases:
  obtains (kept) "truthy (dict_get kvs k)" "ensure kvs k f = kvs"
  | (fresh) "\<not> truthy (dict_get kvs k)" "ensure kvs k f = dict_set kvs k f" "dict_get (ensure kvs k f) k = f"
  by (cases "truthy (dict_get kvs k)") (auto simp: ensure_def)

lemma dict_set_ensure_get: "dict_set (ensure kvs k f) k (dict_get (ensure kvs k f) k) = ensure kvs k f"
  by (rule ensure_cases [of kvs k f]) (simp_all add: dict_set_same truthy_dict_get)

lemma ensure_dict_set:
  "ensure (dict_set kvs k x) k f = (if truthy x then dict_set kvs k x else dict_set kvs k f)"
  by (simp add: ensure_def)

lemma write_leaf_idem: "write_leaf (fst (write_leaf cm k v)) k v = write_leaf cm k v"
  by (cases cm) (simp_all add: write_leaf_def)

lemma write_leaf_truthy: "truthy cm \<Longrightarrow> truthy (fst (write_leaf cm k v))"
  by (cases cm) (simp_all add: write_leaf_def)

lemma write_leaf_dict: "\<exists>kvs'. fst (write_leaf (JDict kvs) k v) = JDict kvs'"
  by (simp add: write_leaf_def)

lemma write_leaf_non_dict: "\<forall>kvs. cm \<noteq> JDict kvs \<Longrightarrow> fst (write_leaf cm k v) = cm"
  by (cases cm) (simp_all add: write_leaf_def)

lemma child_non_dict: "\<forall>kvs. cm \<noteq> JDict kvs \<Longrightarrow> fst (create_child_metadata_of_a_property d cm ks ts v) = cm"
  by (cases "(d, cm, ks, ts, v)" rule: create_child_metadata_of_a_property.cases)
     (auto simp: write_leaf_non_dict split: json.splits)

lemma child_dict: "\<exists>kvs'. fst (create_child_metadata_of_a_property d (JDict kvs) ks ts v) = JDict kvs' \<and> (kvs \<noteq> [] \<longrightarrow> kvs' \<noteq> [])"
  by (cases "(d, JDict kvs, ks, ts, v)" rule: create_child_metadata_of_a_property.cases)
     (auto simp: write_leaf_def Let_def ensure_not_Nil split: json.splits prod.splits sum.splits)

lemma child_truthy: "truthy cm \<Longrightarrow> truthy (fst (create_child_metadata_of_a_property d cm ks ts v))"
proof (cases "\<exists>kvs. cm = JDict kvs")
  case True
  then obtain kvs where cm: "cm = JDict kvs" by blast
  assume "truthy cm"
  with cm child_dict [of d kvs ks ts v] show ?thesis by auto
next
  case False
  assume "truthy cm"
  with False show ?thesis by (simp add: child_non_dict)
qed

lemma child_empty_falsy:
  "\<not> truthy (fst (create_child_metadata_of_a_property d (JDict []) ks ts v)) \<Longrightarrow> fst (create_child_metadata_of_a_property d (JDict []) ks ts v) = JDict []"
  using child_dict [of d "[]" ks ts v] by auto


lemma put_index_non_list: "\<forall>xs. c \<noteq> JList xs \<Longrightarrow> put_index c i x = c"
  by (cases c) simp_all

lemma each_non_list: "\<forall>xs. c \<noteq> JList xs \<Longrightarrow> fst (create_child_each d c ks ts vs i) = c"
proof (induction vs arbitrary: i)
  case Nil
  then show ?case by simp
next
  case (Cons v vs)
  then show ?case
    by (auto simp: put_index_non_list split: sum.splits prod.splits option.splits)
qed

lemma each_list:
  "\<exists>xs'. fst (create_child_each d (JList xs) ks ts vs i) = JList xs' \<and> length xs' = length xs
         \<and> (\<forall>j<i. xs' ! j = xs ! j)"
proof (induction vs arbitrary: xs i)
  case Nil
  then show ?case by simp
next
  case (Cons v vs)
  show ?case
  proof (cases "i < length xs")
    case False
    then show ?thesis by simp
  next
    case True
    obtain sub err where c: "create_child_metadata_of_a_property d (xs ! i) ks ts v = (sub, err)"
      by (cases "create_child_metadata_of_a_property d (xs ! i) ks ts v")
    show ?thesis
    proof (cases err)
      case (Some e)
      with True c show ?thesis by simp
    next
      case None
      from Cons.IH [of "xs[i := sub]" "Suc i"]
      obtain xs' where x: "fst (create_child_each d (JList (xs[i := sub])) ks ts vs (Suc i)) = JList xs'"
        "length xs' = length xs" "\<forall>j<Suc i. xs' ! j = xs[i := sub] ! j"
        by auto
      from x(3) have "\<forall>j<i. xs' ! j = xs ! j" by simp
      with True c None x(1,2) show ?thesis by simp
    qed
  qed
qed

lemma each_truthy: "truthy c \<Longrightarrow> truthy (fst (create_child_each d c ks ts vs i))"
proof (cases "\<exists>xs. c = JList xs")
  case True
  then obtain xs where c: "c = JList xs" by blast
  assume "truthy c"
  with c each_list [of d xs ks ts vs i] show ?thesis by auto
next
  case False
  assume "truthy c"
  with False show ?thesis by (simp add: each_non_list)
qed

text \<open>The shared shape of the object branch and of the per-element array branch: run \<open>g\<close>
  on the node under \<open>k\<close>, made first if it is missing or falsy, and put the result back.\<close>

lemma ensure_rerun:
  assumes run: "g (dict_get (ensure kvs k f) k) = (x, err)"
    and idem: "g x = (x, err)"
    and tr: "truthy (dict_get (ensure kvs k f) k) \<Longrightarrow> truthy x"
    and fr: "dict_get (ensure kvs k f) k = f \<Longrightarrow> \<not> truthy x \<Longrightarrow> x = f"
  shows "g (dict_get (ensure (dict_set (ensure kvs k f) k x) k f) k) = (x, err)
         \<and> dict_set (ensure (dict_set (ensure kvs k f) k x) k f) k x
             = dict_set (ensure kvs k f) k x"
proof (cases "truthy x")
  case True
  then show ?thesis by (simp add: ensure_dict_set idem)
next
  case False
  have xf: "x = f" and gf: "dict_get (ensure kvs k f) k = f"
  proof -
    show g: "dict_get (ensure kvs k f) k = f"
    proof (rule ensure_cases [of kvs k f])
      assume "truthy (dict_get kvs k)" "ensure kvs k f = kvs"
      with tr False show ?thesis by simp
    next
      assume "dict_get (ensure kvs k f) k = f"
      then show ?thesis .
    qed
    from fr [OF g False] show "x = f" .
  qed
  from False xf run gf show ?thesis by (simp add: ensure_dict_set)
qed


lemma put_index_child:
  assumes "py_index c i = Inr elem" and "fst (create_child_metadata_of_a_property d elem ks ts v) = x"
  shows "py_index (put_index c i x) i = Inr x"
    and "put_index (put_index c i x) i x = put_index c i x"
    and "truthy (put_index c i x)"
proof -
  have "py_index (put_index c i x) i = Inr x
        \<and> put_index (put_index c i x) i x = put_index c i x \<and> truthy (put_index c i x)"
  proof (cases c)
    case (JList xs)
    with assms(1) show ?thesis by (auto split: if_splits)
  next
    case (JStr s)
    with assms(1) have e: "elem = JStr [s ! i]" and i: "i < length s"
      by (auto split: if_splits)
    from e assms(2) have "x = elem" by (simp add: child_non_dict)
    with JStr e i show ?thesis by auto
  qed (use assms(1) in simp_all)
  then show "py_index (put_index c i x) i = Inr x"
    and "put_index (put_index c i x) i x = put_index c i x"
    and "truthy (put_index c i x)" by simp_all
qed

lemma each_keeps_index:
  assumes "py_index c i = Inr x"
  shows "py_index (fst (create_child_each d c ks ts vs (Suc i))) i = Inr x"
    and "put_index (fst (create_child_each d c ks ts vs (Suc i))) i x = fst (create_child_each d c ks ts vs (Suc i))"
proof -
  have "py_index (fst (create_child_each d c ks ts vs (Suc i))) i = Inr x
        \<and> put_index (fst (create_child_each d c ks ts vs (Suc i))) i x = fst (create_child_each d c ks ts vs (Suc i))"
  proof (cases c)
    case (JList xs)
    from each_list [of d xs ks ts vs "Suc i"]
    obtain xs' where x: "fst (create_child_each d (JList xs) ks ts vs (Suc i)) = JList xs'"
      "length xs' = length xs" "\<forall>j<Suc i. xs' ! j = xs ! j"
      by auto
    from JList assms have i: "i < length xs" "x = xs ! i" by (auto split: if_splits)
    from x(3) have "xs' ! i = xs ! i" by simp
    then have "xs'[i := xs ! i] = xs'" by (metis list_update_id)
    with x i JList show ?thesis by simp
  next
    case (JStr s)
    with assms show ?thesis by (simp add: each_non_list)
  qed (use assms in simp_all)
  then show "py_index (fst (create_child_each d c ks ts vs (Suc i))) i = Inr x"
    and "put_index (fst (create_child_each d c ks ts vs (Suc i))) i x = fst (create_child_each d c ks ts vs (Suc i))"
    by simp_all
qed

lemma child_each_idem:
  "create_child_metadata_of_a_property d (fst (create_child_metadata_of_a_property d cm ks ts v)) ks ts v = create_child_metadata_of_a_property d cm ks ts v"
  "create_child_each d (fst (create_child_each d c ks ts vs i)) ks ts vs i = create_child_each d c ks ts vs i"
proof (induction d cm ks ts v and d c ks ts vs i
    rule: create_child_metadata_of_a_property_create_child_each.induct)
  case (1 d cm ts v)
  show ?case by simp
next
  case (2 d cm k ts v)
  show ?case by (simp add: write_leaf_idem)
next
  case (3 d cm k k2 ks v)
  show ?case by simp
next
  case (4 d cm k k2 ks ts v)
  show ?case by (simp add: write_leaf_idem)
next
  case (5 d cm k k2 ks ts v)
  show ?case
  proof (cases "\<exists>kvs. cm = JDict kvs")
    case False
    then show ?thesis by (cases cm) simp_all
  next
    case True
    then obtain kvs where cm: "cm = JDict kvs" by blast
    define A where "A = ensure kvs k (JDict [])"
    obtain x err where run: "create_child_metadata_of_a_property d (dict_get A k) (k2 # ks) ts v = (x, err)"
      by (cases "create_child_metadata_of_a_property d (dict_get A k) (k2 # ks) ts v")
    have idem: "create_child_metadata_of_a_property d x (k2 # ks) ts v = (x, err)"
      using 5 [OF cm A_def] run by simp
    have tr: "truthy (dict_get A k) \<Longrightarrow> truthy x"
      using child_truthy [of "dict_get A k" d "k2 # ks" ts v] run by simp
    have fr: "dict_get A k = JDict [] \<Longrightarrow> \<not> truthy x \<Longrightarrow> x = JDict []"
      using child_empty_falsy [of d "k2 # ks" ts v] run by simp
    from ensure_rerun [of "\<lambda>n. create_child_metadata_of_a_property d n (k2 # ks) ts v" kvs k "JDict []" x err]
      run idem tr fr
    show ?thesis
      by (simp add: cm A_def Let_def)
  qed
next
  case (6 d cm k k2 ks ts v)
  show ?case
  proof (cases "\<exists>kvs. cm = JDict kvs")
    case False
    then show ?thesis by (cases cm) (simp_all split: json.splits)
  next
    case True
    then obtain kvs where cm: "cm = JDict kvs" by blast
    show ?thesis
    proof (cases "0 < d")
      case pos: True
      define A where "A = ensure kvs k (JList [JDict []])"
      define c0 where "c0 = dict_get A k"
      have tc: "truthy c0"
        unfolding c0_def A_def by (rule ensure_cases [of kvs k "JList [JDict []]"]) simp_all
      have AA: "ensure A k (JList [JDict []]) = A"
        using tc by (simp add: ensure_def c0_def)
      show ?thesis
      proof (cases "py_index c0 0")
        case (Inl e)
        with cm pos AA show ?thesis
          by (simp add: Let_def A_def [symmetric] c0_def [symmetric])
      next
        case (Inr elem)
        obtain x err where run: "create_child_metadata_of_a_property (d - 1) elem (k2 # ks) ts v = (x, err)"
          by (cases "create_child_metadata_of_a_property (d - 1) elem (k2 # ks) ts v")
        have idem: "create_child_metadata_of_a_property (d - 1) x (k2 # ks) ts v = (x, err)"
          using 6(1) [OF pos cm A_def Inr [unfolded c0_def]] run by simp
        have fx: "fst (create_child_metadata_of_a_property (d - 1) elem (k2 # ks) ts v) = x"
          using run by simp
        note p = put_index_child [OF Inr fx]
        from cm pos Inr run idem p show ?thesis
          by (simp add: Let_def A_def [symmetric] c0_def [symmetric] ensure_dict_set)
      qed
    next
      case npos: False
      show ?thesis
      proof (cases "\<exists>vs. v = JList vs")
        case False
        then have "get_dimensions v = 0" by (cases v) simp_all
        with npos show ?thesis by simp
      next
        case True
        then obtain vs where v: "v = JList vs" by blast
        have dv: "get_dimensions v \<noteq> 0" using v by (cases vs) simp_all
        define f where "f = JList (replicate (length vs) (JDict []))"
        define A where "A = ensure kvs k f"
        obtain x err where run: "create_child_each d (dict_get A k) (k2 # ks) ts vs 0 = (x, err)"
          by (cases "create_child_each d (dict_get A k) (k2 # ks) ts vs 0")
        have idem: "create_child_each d x (k2 # ks) ts vs 0 = (x, err)"
          using 6(2) [OF npos dv v cm A_def [unfolded f_def]] run by (simp add: A_def f_def)
        have tr: "truthy (dict_get A k) \<Longrightarrow> truthy x"
          using each_truthy [of "dict_get A k" d "k2 # ks" ts vs 0] run by simp
        have fr: "x = f" if g: "dict_get A k = f" and nx: "\<not> truthy x"
        proof -
          from each_list [of d "replicate (length vs) (JDict [])" "k2 # ks" ts vs 0] run g
          obtain xs' where "x = JList xs'" "length xs' = length vs"
            by (auto simp: f_def)
          with nx show ?thesis by (simp add: f_def)
        qed
        from ensure_rerun [of "\<lambda>n. create_child_each d n (k2 # ks) ts vs 0" kvs k f x err]
          run idem tr fr
        show ?thesis
          using npos dv by (simp add: cm v A_def Let_def f_def)
      qed
    qed
  qed
next
  case (7 d c ks ts i)
  show ?case by simp
next
  case (8 d c ks ts v vs i)
  show ?case
  proof (cases "py_index c i")
    case (Inl e)
    then show ?thesis by simp
  next
    case (Inr elem)
    obtain x err where run: "create_child_metadata_of_a_property d elem ks ts v = (x, err)"
      by (cases "create_child_metadata_of_a_property d elem ks ts v")
    have idem: "create_child_metadata_of_a_property d x ks ts v = (x, err)"
      using 8(1) [OF Inr] run by simp
    have fx: "fst (create_child_metadata_of_a_property d elem ks ts v) = x"
      using run by simp
    note p = put_index_child [OF Inr fx]
    show ?thesis
    proof (cases err)
      case (Some e)
      with Inr run idem p show ?thesis by simp
    next
      case None
      have ih: "create_child_each d (fst (create_child_each d (put_index c i x) ks ts vs (Suc i))) ks ts vs (Suc i)
                = create_child_each d (put_index c i x) ks ts vs (Suc i)"
        using 8(2) [OF Inr _ None, of x] run None by simp
      note q = each_keeps_index [OF p(1), of d ks ts vs]
      from Inr run idem None ih q show ?thesis by simp
    qed
  qed
qed


lemma top_reconcile_error:
  "reconcile_dimensions v0 (count_list types Array) = Inl e \<Longrightarrow>
   create_metadata_of_a_property md key types v0 = (md, Some e)"
  by (simp add: create_metadata_of_a_property_def)

lemma top_single_key:
  "reconcile_dimensions v0 (count_list types Array) = Inr v \<Longrightarrow> split_dot key = [k] \<Longrightarrow>
   create_metadata_of_a_property md key types v0 =
     (if get_dimensions v > 0 then
        (case py_index v 0 of
           Inl e \<Rightarrow> (md, Some e)
         | Inr x \<Rightarrow> set_leaf md k x)
      else set_leaf md k v)"
  by (simp add: create_metadata_of_a_property_def)

lemma top_value_first:
  "reconcile_dimensions v0 (count_list (Value # ts) Array) = Inr v \<Longrightarrow>
   split_dot key = k # k2 # ks \<Longrightarrow>
   create_metadata_of_a_property md key (Value # ts) v0 =
     (md, Some (WekoSwordserverException ValueAtFirst))"
  by (simp add: create_metadata_of_a_property_def)

lemma top_as_child:
  assumes "reconcile_dimensions v0 (count_list types Array) = Inr v"
    and "split_dot key = k # k2 # ks"
    and "\<forall>ts. types \<noteq> Value # ts"
  shows "create_metadata_of_a_property md key types v0 =
     create_child_metadata_of_a_property (int (count_list types Array) - int (get_dimensions v)) md (k # k2 # ks) types v"
proof (cases types)
  case Nil
  with assms show ?thesis by (simp add: create_metadata_of_a_property_def)
next
  case (Cons t ts)
  show ?thesis
  proof (cases t)
    case Object
    with Cons assms show ?thesis
      by (cases md) (simp_all add: create_metadata_of_a_property_def)
  next
    case Array
    with Cons assms show ?thesis
      by (cases md; cases v) (simp_all add: create_metadata_of_a_property_def)
  next
    case Value
    with Cons assms show ?thesis by simp
  qed
qed

lemma set_leaf_idem: "set_leaf (fst (set_leaf md k x)) k x = set_leaf md k x"
  by (cases md) (simp_all add: set_leaf_def)

lemma top_idem:
  "create_metadata_of_a_property (fst (create_metadata_of_a_property md key types v0)) key types v0
     = create_metadata_of_a_property md key types v0"
proof (cases "reconcile_dimensions v0 (count_list types Array)")
  case (Inl e)
  then show ?thesis by (simp add: top_reconcile_error)
next
  case (Inr v)
  show ?thesis
  proof (cases "split_dot key")
    case Nil
    with Inr show ?thesis by (simp add: create_metadata_of_a_property_def)
  next
    case (Cons k rest)
    show ?thesis
    proof (cases rest)
      case Nil
      with Cons have "split_dot key = [k]" by simp
      note top_single_key [OF Inr this]
      then show ?thesis by (simp add: set_leaf_idem split: sum.splits)
    next
      case (Cons k2 ks)
      with \<open>split_dot key = k # rest\<close> have sk: "split_dot key = k # k2 # ks" by simp
      show ?thesis
      proof (cases "\<exists>ts. types = Value # ts")
        case True
        then obtain ts where "types = Value # ts" by blast
        with Inr sk show ?thesis by (simp add: top_value_first)
      next
        case False
        then have "\<forall>ts. types \<noteq> Value # ts" by blast
        note top_as_child [OF Inr sk this]
        then show ?thesis by (simp add: child_each_idem del: create_child_metadata_of_a_property.simps)
      qed
    qed
  qed
qed

subsection \<open>Replication and the single wrapper\<close>

text \<open>
  Claim C6, as stated: a flat list of scalars \<open>v\<close>, written with the kinds
  \<open>[Array, Value]\<close> along \<^verbatim>\<open>p.q\<close> into a tree with no entry at \<^verbatim>\<open>p\<close>, gives at \<^verbatim>\<open>p\<close> a
  list of objects, the \<open>i\<close>-th being \<^verbatim>\<open>{q: v[i]}\<close>.

  It fails where an element is null: the child builder writes a leaf only
  \<^verbatim>\<open>if json_value is not None\<close>, so a null element leaves its object empty.
\<close>

theorem replicate_null_element:
  "get_dimensions (JStr ''x'') = 0 \<and> get_dimensions JNull = 0
   \<and> fst (create_metadata_of_a_property (JDict []) ''p.q'' [Array, Value]
            (JList [JStr ''x'', JNull]))
       = JDict [(''p'', JList [JDict [(''q'', JStr ''x'')], JDict []])]
   \<and> fst (create_metadata_of_a_property (JDict []) ''p.q'' [Array, Value]
            (JList [JStr ''x'', JNull]))
       \<noteq> JDict [(''p'', JList [JDict [(''q'', JStr ''x'')], JDict [(''q'', JNull)]])]"
  by (simp add: create_metadata_of_a_property_def reconcile_dimensions_def ensure_def
      dict_get_def write_leaf_def)

text \<open>
  Claim C6, amended: for a list \<open>v\<close> whose elements are not lists, the builder returns
  without an exception and the tree has at \<^verbatim>\<open>p\<close> a list as long as \<open>v\<close>, whose \<open>i\<close>-th
  element is the object \<^verbatim>\<open>{q: v[i]}\<close> where \<^verbatim>\<open>v[i]\<close> is not null and the empty
  object where it is null; the other entries of the tree are as they were.
\<close>

theorem replicate_rule:
  assumes "map_of kvs p = None" and "CHR ''.'' \<notin> set p" and "CHR ''.'' \<notin> set q"
    and "\<forall>v \<in> set vs. get_dimensions v = 0"
  shows "create_metadata_of_a_property (JDict kvs) (p @ ''.'' @ q) [Array, Value] (JList vs) =
           (JDict (kvs @ [(p, JList (map (\<lambda>v. if v = JNull then JDict [] else JDict [(q, v)])
                                      vs))]),
            None)"
proof -
  have e: "create_child_each 0 (JList (replicate (length vs) (JDict []))) [q] [Value] vs 0 =
             (JList (map (\<lambda>v. if v = JNull then JDict [] else JDict [(q, v)]) vs), None)"
    using each_replicate [of 0 "[]" vs q "[Value]"] by simp
  show ?thesis
    using assms
    by (simp add: create_metadata_of_a_property_def split_dot_two reconcile_dimensions_def
        ensure_def dict_get_fresh dict_set_fresh dims_flat e Let_def
        dict_get_append_fresh dict_set_append_fresh)
qed

theorem replicate_rule_witness:
  "map_of [(''other'', JInt 1)] ''p'' = None
   \<and> CHR ''.'' \<notin> set ''p'' \<and> CHR ''.'' \<notin> set ''q''
   \<and> get_dimensions (JStr ''x'') = 0 \<and> get_dimensions (JStr ''y'') = 0
   \<and> create_metadata_of_a_property (JDict [(''other'', JInt 1)]) ''p.q'' [Array, Value]
        (JList [JStr ''x'', JStr ''y''])
       = (JDict [(''other'', JInt 1),
                 (''p'', JList [JDict [(''q'', JStr ''x'')], JDict [(''q'', JStr ''y'')]])],
          None)"
proof -
  have a: "map_of [(''other'', JInt 1)] ''p'' = None" by simp
  have b: "CHR ''.'' \<notin> set ''p''" by simp
  have c: "CHR ''.'' \<notin> set ''q''" by simp
  have d: "\<forall>v \<in> set [JStr ''x'', JStr ''y'']. get_dimensions v = 0" by simp
  from replicate_rule [OF a b c d] show ?thesis by simp
qed

text \<open>The builder is called with a value only after the test
  \<^verbatim>\<open>if json_value is None: continue\<close> of \<^verbatim>\<open>_create_metadata\<close>: a rule whose value is
  \<^verbatim>\<open>None\<close> is skipped.\<close>

lemma create_metadata_skips_null:
  "get_json_metadata_value (json m) v = Inr JNull \<Longrightarrow>
   create_metadata_loop m imap ((k, v) # rules) metadata
     = create_metadata_loop m imap rules metadata"
  by simp

text \<open>
  Claim C7: a scalar \<open>x\<close>, written with the kinds \<open>[Array, Value]\<close> along \<^verbatim>\<open>p.q\<close> into a
  tree with no entry at \<^verbatim>\<open>p\<close>, gives at \<^verbatim>\<open>p\<close> the one-element list \<^verbatim>\<open>[{q: x}]\<close>.

  The value is one the builder receives, so it is not \<^verbatim>\<open>None\<close>; it has dimension 0,
  that is, it is not a list. The builder returns without an exception, and the other
  entries of the tree are as they were.
\<close>

theorem single_wrap:
  assumes "map_of kvs p = None" and "CHR ''.'' \<notin> set p" and "CHR ''.'' \<notin> set q"
    and "get_dimensions x = 0" and "x \<noteq> JNull"
  shows "create_metadata_of_a_property (JDict kvs) (p @ ''.'' @ q) [Array, Value] x =
           (JDict (kvs @ [(p, JList [JDict [(q, x)]])]), None)"
  using assms
  by (simp add: create_metadata_of_a_property_def split_dot_two reconcile_dimensions_def
      ensure_def dict_get_fresh dict_set_fresh write_leaf_empty Let_def
      dict_get_append_fresh dict_set_append_fresh)

theorem single_wrap_witness:
  "map_of [(''other'', JInt 1)] ''p'' = None
   \<and> CHR ''.'' \<notin> set ''p'' \<and> CHR ''.'' \<notin> set ''q''
   \<and> get_dimensions (JStr ''x'') = 0 \<and> JStr ''x'' \<noteq> JNull
   \<and> create_metadata_of_a_property (JDict [(''other'', JInt 1)]) ''p.q'' [Array, Value]
        (JStr ''x'')
       = (JDict [(''other'', JInt 1), (''p'', JList [JDict [(''q'', JStr ''x'')]])], None)"
proof -
  have a: "map_of [(''other'', JInt 1)] ''p'' = None" by simp
  have b: "CHR ''.'' \<notin> set ''p''" by simp
  have c: "CHR ''.'' \<notin> set ''q''" by simp
  have d: "get_dimensions (JStr ''x'') = 0" by simp
  have e: "JStr ''x'' \<noteq> JNull" by simp
  from single_wrap [OF a b c d e] show ?thesis by simp
qed

subsection \<open>Applying a rule twice\<close>

text \<open>
  Claim C3, as stated: applying the same rule twice with the same value overwrites at
  scalar leaves, but for some rule with an array kind the second application appends
  elements to the list the first one made, so that it changes the tree.

  No rule does: the builder makes a list only where the key is missing or falsy, and
  otherwise writes into the elements the list has. Whatever the tree, the path, the
  kinds and the value, the second application leaves the tree of the first; for the
  rule that makes \<^verbatim>\<open>p: [{q: x}, {q: y}]\<close> the list still has its two elements.
\<close>

theorem no_rule_appends:
  "\<not> (\<exists>metadata key types v.
         Array \<in> set types
         \<and> fst (create_metadata_of_a_property
                  (fst (create_metadata_of_a_property metadata key types v)) key types v)
             \<noteq> fst (create_metadata_of_a_property metadata key types v))
   \<and> fst (create_metadata_of_a_property
            (fst (create_metadata_of_a_property (JDict []) ''p.q'' [Array, Value]
                    (JList [JStr ''x'', JStr ''y''])))
            ''p.q'' [Array, Value] (JList [JStr ''x'', JStr ''y'']))
       = JDict [(''p'', JList [JDict [(''q'', JStr ''x'')], JDict [(''q'', JStr ''y'')]])]"
proof (intro conjI)
  show "\<not> (\<exists>metadata key types v.
         Array \<in> set types
         \<and> fst (create_metadata_of_a_property
                  (fst (create_metadata_of_a_property metadata key types v)) key types v)
             \<noteq> fst (create_metadata_of_a_property metadata key types v))"
    by (simp add: top_idem)
next
  have once: "fst (create_metadata_of_a_property (JDict []) ''p.q'' [Array, Value]
               (JList [JStr ''x'', JStr ''y'']))
        = JDict [(''p'', JList [JDict [(''q'', JStr ''x'')], JDict [(''q'', JStr ''y'')]])]"
    by (simp add: create_metadata_of_a_property_def reconcile_dimensions_def ensure_def
        dict_get_def write_leaf_def)
  show "fst (create_metadata_of_a_property
            (fst (create_metadata_of_a_property (JDict []) ''p.q'' [Array, Value]
                    (JList [JStr ''x'', JStr ''y''])))
            ''p.q'' [Array, Value] (JList [JStr ''x'', JStr ''y'']))
       = JDict [(''p'', JList [JDict [(''q'', JStr ''x'')], JDict [(''q'', JStr ''y'')]])]"
    unfolding top_idem by (rule once)
qed

text \<open>
  Claim C3, amended: applying a rule again, with the same path, kinds and value, to the
  tree its first application left returns that tree unchanged, with the same exception
  if the first application raised one. Leaves are overwritten with the value they hold,
  and a list is used as it is, never grown; this holds for rules with array kinds as for
  all others.
\<close>

theorem rule_application_idempotent:
  "create_metadata_of_a_property
     (fst (create_metadata_of_a_property metadata key types v)) key types v
   = create_metadata_of_a_property metadata key types v"
  by (rule top_idem)

theorem rule_application_idempotent_witness:
  "create_metadata_of_a_property
     (JDict [(''p'', JList [JDict [(''q'', JStr ''x'')], JDict [(''q'', JStr ''y'')]])])
     ''p.q'' [Array, Value] (JList [JStr ''x'', JStr ''y''])
   = (JDict [(''p'', JList [JDict [(''q'', JStr ''x'')], JDict [(''q'', JStr ''y'')]])], None)"
proof -
  have "create_metadata_of_a_property (JDict []) ''p.q'' [Array, Value]
          (JList [JStr ''x'', JStr ''y''])
        = (JDict [(''p'', JList [JDict [(''q'', JStr ''x'')], JDict [(''q'', JStr ''y'')]])],
           None)"
    by (simp add: create_metadata_of_a_property_def reconcile_dimensions_def ensure_def
        dict_get_def write_leaf_def)
  with rule_application_idempotent [of "JDict []" "''p.q''" "[Array, Value]"
      "JList [JStr ''x'', JStr ''y'']"]
  show ?thesis by simp
qed

subsection \<open>Values with more dimensions than the kinds have arrays\<close>

text \<open>
  Claim C4, as stated: for every value with dimension \<open>d\<close> and kinds with \<open>a\<close> entries
  \<open>Array\<close>, if \<open>d - a = 1\<close> the builder goes on with the first element of the value, and
  if \<open>d - a > 1\<close> it fails with the too-many-dimensions exception and writes nothing.

  The first half fails for the empty list, which has dimension 1 and no first element:
  with no \<open>Array\<close> among the kinds, \<^verbatim>\<open>json_value[0]\<close> raises \<^verbatim>\<open>IndexError\<close>.
\<close>

theorem collapse_empty_list:
  "get_dimensions (JList []) - count_list [Value] Array = 1
   \<and> py_index (JList []) 0 = Inl IndexError
   \<and> create_metadata_of_a_property (JDict []) ''p'' [Value] (JList [])
       = (JDict [], Some IndexError)"
  by (simp add: create_metadata_of_a_property_def reconcile_dimensions_def)

text \<open>
  Claim C4, amended: for a value that has a first element, if \<open>d = a + 1\<close> the builder
  does to the tree exactly what it does when given that first element in place of the
  value; for every value, if \<open>d > a + 1\<close> it raises the too-many-dimensions exception and
  leaves the tree as it was.
\<close>

theorem collapse_or_reject:
  "(get_dimensions (JList (x # xs)) = count_list types Array + 1 \<longrightarrow>
      create_metadata_of_a_property metadata key types (JList (x # xs))
        = create_metadata_of_a_property metadata key types x)
   \<and> (get_dimensions v > count_list types Array + 1 \<longrightarrow>
      create_metadata_of_a_property metadata key types v
        = (metadata, Some (WekoSwordserverException (TooManyDimensions v))))"
proof (intro conjI impI)
  assume d: "get_dimensions (JList (x # xs)) = count_list types Array + 1"
  then have dx: "get_dimensions x = count_list types Array" by simp
  have r1: "reconcile_dimensions (JList (x # xs)) (count_list types Array) = Inr x"
    using d by (simp add: reconcile_dimensions_def)
  have r2: "reconcile_dimensions x (count_list types Array) = Inr x"
    using dx by (simp add: reconcile_dimensions_def)
  show "create_metadata_of_a_property metadata key types (JList (x # xs))
        = create_metadata_of_a_property metadata key types x"
    by (simp only: create_metadata_of_a_property_def Let_def r1 r2)
next
  assume "get_dimensions v > count_list types Array + 1"
  then have "reconcile_dimensions v (count_list types Array)
             = Inl (WekoSwordserverException (TooManyDimensions v))"
    by (auto simp: reconcile_dimensions_def Let_def)
  then show "create_metadata_of_a_property metadata key types v
        = (metadata, Some (WekoSwordserverException (TooManyDimensions v)))"
    by (rule top_reconcile_error)
qed

theorem collapse_or_reject_witness:
  "get_dimensions (JList [JList [JInt 1, JInt 2], JList [JInt 3]])
     = count_list [Array, Value] Array + 1
   \<and> create_metadata_of_a_property (JDict []) ''p.q'' [Array, Value]
         (JList [JList [JInt 1, JInt 2], JList [JInt 3]])
       = (JDict [(''p'', JList [JDict [(''q'', JInt 1)], JDict [(''q'', JInt 2)]])], None)
   \<and> get_dimensions (JList [JList [JList [JInt 1]]]) > count_list [Array, Value] Array + 1
   \<and> create_metadata_of_a_property (JDict []) ''p.q'' [Array, Value]
         (JList [JList [JList [JInt 1]]])
       = (JDict [],
          Some (WekoSwordserverException (TooManyDimensions (JList [JList [JList [JInt 1]]]))))"
proof -
  have a: "get_dimensions (JList [JList [JInt 1, JInt 2], JList [JInt 3]])
             = count_list [Array, Value] Array + 1"
    by simp
  have b: "get_dimensions (JList [JList [JList [JInt 1]]]) > count_list [Array, Value] Array + 1"
    by simp
  have c: "create_metadata_of_a_property (JDict []) ''p.q'' [Array, Value]
             (JList [JInt 1, JInt 2])
           = (JDict [(''p'', JList [JDict [(''q'', JInt 1)], JDict [(''q'', JInt 2)]])], None)"
    by (simp add: create_metadata_of_a_property_def reconcile_dimensions_def ensure_def
        dict_get_def write_leaf_def)
  from collapse_or_reject [of "JList [JInt 1, JInt 2]" "[JList [JInt 3]]" "[Array, Value]"
      "JDict []" "''p.q''" "JList [JList [JList [JInt 1]]]"] a b c
  show ?thesis by simp
qed

subsection \<open>An existing list shorter than the value\<close>

lemma each_short_exact:
  assumes "i \<le> length xs" and "length xs < i + length vs"
  shows "\<exists>xs' e. create_child_each d (JList xs) ks ts vs i = (JList xs', Some e)
           \<and> length xs' = length xs
           \<and> (\<forall>m<i. xs' ! m = xs ! m)
           \<and> ((e = IndexError
                 \<and> (\<forall>m. i \<le> m \<and> m < length xs \<longrightarrow>
                       create_child_metadata_of_a_property d (xs ! m) ks ts (vs ! (m - i))
                         = (xs' ! m, None)))
                \<or> (\<exists>j. i \<le> j \<and> j < length xs
                      \<and> create_child_metadata_of_a_property d (xs ! j) ks ts (vs ! (j - i))
                          = (xs' ! j, Some e)
                      \<and> (\<forall>m. i \<le> m \<and> m < j \<longrightarrow>
                            create_child_metadata_of_a_property d (xs ! m) ks ts (vs ! (m - i))
                              = (xs' ! m, None))
                      \<and> (\<forall>m. j < m \<and> m < length xs \<longrightarrow> xs' ! m = xs ! m)))"
  using assms
proof (induction vs arbitrary: xs i)
  case Nil
  then show ?case by simp
next
  case (Cons v vs)
  let ?R = "\<lambda>ys w m. create_child_metadata_of_a_property d (ys ! m) ks ts (w ! (m - i))"
  show ?case
  proof (cases "i < length xs")
    case False
    with Cons.prems have "i = length xs" by simp
    then show ?thesis by auto
  next
    case True
    obtain sub err where c: "create_child_metadata_of_a_property d (xs ! i) ks ts v = (sub, err)"
      by (cases "create_child_metadata_of_a_property d (xs ! i) ks ts v")
    show ?thesis
    proof (cases err)
      case (Some e)
      have run: "create_child_each d (JList xs) ks ts (v # vs) i = (JList (xs[i := sub]), Some e)"
        using True c Some by simp
      have "\<exists>j. i \<le> j \<and> j < length xs
              \<and> create_child_metadata_of_a_property d (xs ! j) ks ts ((v # vs) ! (j - i))
                  = (xs[i := sub] ! j, Some e)
              \<and> (\<forall>m. i \<le> m \<and> m < j \<longrightarrow>
                    create_child_metadata_of_a_property d (xs ! m) ks ts ((v # vs) ! (m - i))
                      = (xs[i := sub] ! m, None))
              \<and> (\<forall>m. j < m \<and> m < length xs \<longrightarrow> xs[i := sub] ! m = xs ! m)"
        using True c Some by (intro exI [of _ i]) auto
      with run show ?thesis
        by (intro exI [of _ "xs[i := sub]"] exI [of _ e]) simp
    next
      case None
      have a: "Suc i \<le> length (xs[i := sub])" using True by simp
      have b: "length (xs[i := sub]) < Suc i + length vs" using Cons.prems by simp
      from Cons.IH [OF a b]
      obtain xs' e where r: "create_child_each d (JList (xs[i := sub])) ks ts vs (Suc i) = (JList xs', Some e)"
        and l: "length xs' = length xs"
        and keep: "\<forall>m<Suc i. xs' ! m = xs[i := sub] ! m"
        and e: "(e = IndexError
                 \<and> (\<forall>m. Suc i \<le> m \<and> m < length xs \<longrightarrow>
                       create_child_metadata_of_a_property d (xs[i := sub] ! m) ks ts (vs ! (m - Suc i))
                         = (xs' ! m, None)))
                \<or> (\<exists>j. Suc i \<le> j \<and> j < length xs
                      \<and> create_child_metadata_of_a_property d (xs[i := sub] ! j) ks ts (vs ! (j - Suc i))
                          = (xs' ! j, Some e)
                      \<and> (\<forall>m. Suc i \<le> m \<and> m < j \<longrightarrow>
                            create_child_metadata_of_a_property d (xs[i := sub] ! m) ks ts (vs ! (m - Suc i))
                              = (xs' ! m, None))
                      \<and> (\<forall>m. j < m \<and> m < length xs \<longrightarrow> xs' ! m = xs[i := sub] ! m))"
        by auto
      have run: "create_child_each d (JList xs) ks ts (v # vs) i = (JList xs', Some e)"
        using True c None r by simp
      have at_i: "xs' ! i = sub" using keep True by simp
      have below: "\<forall>m<i. xs' ! m = xs ! m" using keep by simp
      have shift: "create_child_metadata_of_a_property d (xs ! m) ks ts ((v # vs) ! (m - i))
                   = create_child_metadata_of_a_property d (xs[i := sub] ! m) ks ts (vs ! (m - Suc i))"
        if "Suc i \<le> m" for m
      proof -
        from that have "(v # vs) ! (m - i) = vs ! (m - Suc i)"
          by (simp add: nth_Cons' Suc_diff_le)
        moreover from that have "xs[i := sub] ! m = xs ! m" by simp
        ultimately show ?thesis by simp
      qed
      have first: "create_child_metadata_of_a_property d (xs ! i) ks ts ((v # vs) ! (i - i))
                   = (xs' ! i, None)"
        using c None at_i by simp
      have upd: "xs[i := sub] ! m = xs ! m" if "i < m" for m
        using that by simp
      from e have "(e = IndexError
                 \<and> (\<forall>m. i \<le> m \<and> m < length xs \<longrightarrow>
                       create_child_metadata_of_a_property d (xs ! m) ks ts ((v # vs) ! (m - i))
                         = (xs' ! m, None)))
                \<or> (\<exists>j. i \<le> j \<and> j < length xs
                      \<and> create_child_metadata_of_a_property d (xs ! j) ks ts ((v # vs) ! (j - i))
                          = (xs' ! j, Some e)
                      \<and> (\<forall>m. i \<le> m \<and> m < j \<longrightarrow>
                            create_child_metadata_of_a_property d (xs ! m) ks ts ((v # vs) ! (m - i))
                              = (xs' ! m, None))
                      \<and> (\<forall>m. j < m \<and> m < length xs \<longrightarrow> xs' ! m = xs ! m))"
      proof
        assume A: "e = IndexError
                 \<and> (\<forall>m. Suc i \<le> m \<and> m < length xs \<longrightarrow>
                       create_child_metadata_of_a_property d (xs[i := sub] ! m) ks ts (vs ! (m - Suc i))
                         = (xs' ! m, None))"
        have "create_child_metadata_of_a_property d (xs ! m) ks ts ((v # vs) ! (m - i))
                         = (xs' ! m, None)" if "i \<le> m" "m < length xs" for m
        proof (cases "m = i")
          case True
          with first show ?thesis by simp
        next
          case False
          with that have "Suc i \<le> m" by simp
          with A that shift [of m] show ?thesis by simp
        qed
        with A show ?thesis by blast
      next
        assume "\<exists>j. Suc i \<le> j \<and> j < length xs
                      \<and> create_child_metadata_of_a_property d (xs[i := sub] ! j) ks ts (vs ! (j - Suc i))
                          = (xs' ! j, Some e)
                      \<and> (\<forall>m. Suc i \<le> m \<and> m < j \<longrightarrow>
                            create_child_metadata_of_a_property d (xs[i := sub] ! m) ks ts (vs ! (m - Suc i))
                              = (xs' ! m, None))
                      \<and> (\<forall>m. j < m \<and> m < length xs \<longrightarrow> xs' ! m = xs[i := sub] ! m)"
        then obtain j where j: "Suc i \<le> j" "j < length xs"
          and rj: "create_child_metadata_of_a_property d (xs[i := sub] ! j) ks ts (vs ! (j - Suc i))
                          = (xs' ! j, Some e)"
          and bj: "\<forall>m. Suc i \<le> m \<and> m < j \<longrightarrow>
                            create_child_metadata_of_a_property d (xs[i := sub] ! m) ks ts (vs ! (m - Suc i))
                              = (xs' ! m, None)"
          and aj: "\<forall>m. j < m \<and> m < length xs \<longrightarrow> xs' ! m = xs[i := sub] ! m"
          by blast
        have 1: "create_child_metadata_of_a_property d (xs ! j) ks ts ((v # vs) ! (j - i))
                          = (xs' ! j, Some e)"
          using rj shift [OF j(1)] by simp
        have 2: "create_child_metadata_of_a_property d (xs ! m) ks ts ((v # vs) ! (m - i))
                              = (xs' ! m, None)" if "i \<le> m" "m < j" for m
        proof (cases "m = i")
          case True
          with first show ?thesis by simp
        next
          case False
          with that have s: "Suc i \<le> m" by simp
          with bj that shift [OF s] show ?thesis by simp
        qed
        have 3: "xs' ! m = xs ! m" if "j < m" "m < length xs" for m
        proof -
          from that j have "i < m" by simp
          with aj that upd [of m] show ?thesis by simp
        qed
        from j 1 2 3 have "\<exists>j. i \<le> j \<and> j < length xs
                      \<and> create_child_metadata_of_a_property d (xs ! j) ks ts ((v # vs) ! (j - i))
                          = (xs' ! j, Some e)
                      \<and> (\<forall>m. i \<le> m \<and> m < j \<longrightarrow>
                            create_child_metadata_of_a_property d (xs ! m) ks ts ((v # vs) ! (m - i))
                              = (xs' ! m, None))
                      \<and> (\<forall>m. j < m \<and> m < length xs \<longrightarrow> xs' ! m = xs ! m)"
          by (intro exI [of _ j]) simp
        then show ?thesis by blast
      qed
      with run l below show ?thesis by blast
    qed
  qed
qed


lemma child_short_list_exact:
  assumes g: "dict_get kvs k = JList lst" and ne: "lst \<noteq> []" and sh: "length lst < length vs"
    and d: "\<not> 0 < d"
  shows "\<exists>lst' e.
           create_child_metadata_of_a_property d (JDict kvs) (k # k2 # ks) (Array # ts) (JList vs)
             = (JDict (dict_set kvs k (JList lst')), Some e)
           \<and> length lst' = length lst
           \<and> ((e = IndexError
                 \<and> (\<forall>m<length lst.
                       create_child_metadata_of_a_property d (lst ! m) (k2 # ks) ts (vs ! m)
                         = (lst' ! m, None)))
                \<or> (\<exists>j<length lst.
                      create_child_metadata_of_a_property d (lst ! j) (k2 # ks) ts (vs ! j)
                        = (lst' ! j, Some e)
                      \<and> (\<forall>m<j.
                            create_child_metadata_of_a_property d (lst ! m) (k2 # ks) ts (vs ! m)
                              = (lst' ! m, None))
                      \<and> (\<forall>m. j < m \<and> m < length lst \<longrightarrow> lst' ! m = lst ! m)))"
proof -
  have dv: "get_dimensions (JList vs) \<noteq> 0" by (cases vs) simp_all
  have en: "ensure kvs k (JList (replicate (length vs) (JDict []))) = kvs"
    using g ne by (simp add: ensure_def)
  from each_short_exact [of 0 lst vs d "k2 # ks" ts] sh
  obtain xs' e where r: "create_child_each d (JList lst) (k2 # ks) ts vs 0 = (JList xs', Some e)"
    and l: "length xs' = length lst"
    and e: "(e = IndexError
                 \<and> (\<forall>m<length lst.
                       create_child_metadata_of_a_property d (lst ! m) (k2 # ks) ts (vs ! m)
                         = (xs' ! m, None)))
                \<or> (\<exists>j<length lst.
                      create_child_metadata_of_a_property d (lst ! j) (k2 # ks) ts (vs ! j)
                        = (xs' ! j, Some e)
                      \<and> (\<forall>m<j.
                            create_child_metadata_of_a_property d (lst ! m) (k2 # ks) ts (vs ! m)
                              = (xs' ! m, None))
                      \<and> (\<forall>m. j < m \<and> m < length lst \<longrightarrow> xs' ! m = lst ! m))"
    by auto
  have "create_child_metadata_of_a_property d (JDict kvs) (k # k2 # ks) (Array # ts) (JList vs)
             = (JDict (dict_set kvs k (JList xs')), Some e)"
    using d dv en g r by simp
  with l e show ?thesis by blast
qed

lemma child_short_list_objects:
  assumes g: "dict_get kvs k = JList (map JDict ds)" and ne: "ds \<noteq> []"
    and sh: "length ds < length vs" and d: "\<not> 0 < d"
  shows "create_child_metadata_of_a_property d (JDict kvs) [k, k2] (Array # ts) (JList vs)
           = (JDict (dict_set kvs k
                (JList (map2 (\<lambda>kv v. JDict (if v = JNull then kv else dict_set kv k2 v)) ds vs))),
              Some IndexError)"
proof -
  have ne': "map JDict ds \<noteq> []" using ne by simp
  have sh': "length (map JDict ds) < length vs" using sh by simp
  have leaf: "create_child_metadata_of_a_property d (map JDict ds ! m) [k2] ts (vs ! m)
              = (JDict (if vs ! m = JNull then ds ! m else dict_set (ds ! m) k2 (vs ! m)), None)"
    if "m < length ds" for m
    using that by (simp add: write_leaf_def)
  from child_short_list_exact [OF g ne' sh' d, of k2 "[]" ts]
  obtain lst' e where
    run: "create_child_metadata_of_a_property d (JDict kvs) [k, k2] (Array # ts) (JList vs)
            = (JDict (dict_set kvs k (JList lst')), Some e)"
    and l: "length lst' = length ds"
    and e: "(e = IndexError
                 \<and> (\<forall>m<length ds.
                       create_child_metadata_of_a_property d (map JDict ds ! m) [k2] ts (vs ! m)
                         = (lst' ! m, None)))
                \<or> (\<exists>j<length ds.
                      create_child_metadata_of_a_property d (map JDict ds ! j) [k2] ts (vs ! j)
                        = (lst' ! j, Some e))"
    by auto
  from e leaf have ie: "e = IndexError"
    and el: "\<forall>m<length ds. lst' ! m
               = JDict (if vs ! m = JNull then ds ! m else dict_set (ds ! m) k2 (vs ! m))"
    by auto
  have "lst' = map2 (\<lambda>kv v. JDict (if v = JNull then kv else dict_set kv k2 v)) ds vs"
  proof (rule nth_equalityI)
    show "length lst' = length (map2 (\<lambda>kv v. JDict (if v = JNull then kv else dict_set kv k2 v)) ds vs)"
      using l sh by simp
  next
    fix m assume "m < length lst'"
    with l sh el show "lst' ! m
        = map2 (\<lambda>kv v. JDict (if v = JNull then kv else dict_set kv k2 v)) ds vs ! m"
      by simp
  qed
  with run ie show ?thesis by simp
qed

lemma child_falsy_replaced:
  assumes f: "\<not> truthy (dict_get kvs k)" and d: "\<not> 0 < d"
  shows "create_child_metadata_of_a_property d (JDict kvs) (k # k2 # ks) (Array # ts) (JList vs)
           = create_child_metadata_of_a_property d
               (JDict (dict_set kvs k (JList (replicate (length vs) (JDict [])))))
               (k # k2 # ks) (Array # ts) (JList vs)"
    and "\<exists>l err.
           create_child_metadata_of_a_property d (JDict kvs) (k # k2 # ks) (Array # ts) (JList vs)
             = (JDict (dict_set kvs k (JList l)), err)
           \<and> length l = length vs"
proof -
  let ?f = "JList (replicate (length vs) (JDict []))"
  have dv: "get_dimensions (JList vs) \<noteq> 0" by (cases vs) simp_all
  have e1: "ensure kvs k ?f = dict_set kvs k ?f" using f by (simp add: ensure_def)
  have e2: "ensure (dict_set kvs k ?f) k ?f = dict_set kvs k ?f"
    by (simp add: ensure_dict_set)
  show "create_child_metadata_of_a_property d (JDict kvs) (k # k2 # ks) (Array # ts) (JList vs)
           = create_child_metadata_of_a_property d
               (JDict (dict_set kvs k ?f)) (k # k2 # ks) (Array # ts) (JList vs)"
    using d dv e1 e2 by simp
  from each_list [of d "replicate (length vs) (JDict [])" "k2 # ks" ts vs 0]
  obtain xs' where x: "fst (create_child_each d ?f (k2 # ks) ts vs 0) = JList xs'"
    "length xs' = length vs" by auto
  obtain l err where r: "create_child_each d ?f (k2 # ks) ts vs 0 = (l, err)"
    by (cases "create_child_each d ?f (k2 # ks) ts vs 0")
  with x have "l = JList xs'" by simp
  with r d dv e1
  have "create_child_metadata_of_a_property d (JDict kvs) (k # k2 # ks) (Array # ts) (JList vs)
             = (JDict (dict_set kvs k (JList xs')), err)"
    by simp
  with x(2) show "\<exists>l err.
           create_child_metadata_of_a_property d (JDict kvs) (k # k2 # ks) (Array # ts) (JList vs)
             = (JDict (dict_set kvs k (JList l)), err)
           \<and> length l = length vs"
    by blast
qed

lemma child_falsy_two_keys:
  assumes f: "\<not> truthy (dict_get kvs k)" and d: "\<not> 0 < d"
  shows "create_child_metadata_of_a_property d (JDict kvs) [k, k2] (Array # ts) (JList vs)
           = (JDict (dict_set kvs k
                (JList (map (\<lambda>v. if v = JNull then JDict [] else JDict [(k2, v)]) vs))),
              None)"
proof -
  let ?f = "JList (replicate (length vs) (JDict []))"
  have dv: "get_dimensions (JList vs) \<noteq> 0" by (cases vs) simp_all
  have e1: "ensure kvs k ?f = dict_set kvs k ?f" using f by (simp add: ensure_def)
  have e: "create_child_each d ?f [k2] ts vs 0 =
             (JList (map (\<lambda>v. if v = JNull then JDict [] else JDict [(k2, v)]) vs), None)"
    using each_replicate [of d "[]" vs k2 ts] by simp
  show ?thesis using d dv e1 e by simp
qed

lemma top_is_child_at_zero:
  assumes sk: "split_dot key = k # k2 # ks"
    and c: "count_list (Array # ts) Array = get_dimensions (JList vs)"
  shows "create_metadata_of_a_property metadata key (Array # ts) (JList vs)
         = create_child_metadata_of_a_property 0 metadata (k # k2 # ks) (Array # ts) (JList vs)"
proof -
  from c have r: "reconcile_dimensions (JList vs) (count_list (Array # ts) Array) = Inr (JList vs)"
    by (simp add: reconcile_dimensions_def)
  have t: "\<forall>ts'. Array # ts \<noteq> Value # ts'" by simp
  from c have d0: "int (count_list (Array # ts) Array) - int (get_dimensions (JList vs)) = 0"
    by simp
  show ?thesis using top_as_child [OF r sk t, of metadata] unfolding d0 .
qed

text \<open>
  Claim C10, as stated: when the builder reaches an \<open>Array\<close> segment with
  \<^verbatim>\<open>diff_array\<close> 0 and the tree already holds at that key a list, made by an earlier
  rule, that is shorter than the list being written, it indexes past the end of that
  list and fails with \<^verbatim>\<open>IndexError\<close>, not with the module's exception; the list is
  never extended or truncated.

  It fails in two ways. An empty list is falsy: the builder puts a new list of the new
  length in its place and returns normally (the first rule below, writing \<^verbatim>\<open>[]\<close>, makes
  the empty list; the second replaces it). And the elements the list does hold are
  written first, so the module's exception from one of them comes before the index runs
  out (the third rule: the second element of the value is not a list where the kinds
  want one).
\<close>

theorem shorter_list_not_always_index_error:
  "create_metadata_of_a_property (JDict []) ''p.q'' [Array, Value] (JList [])
     = (JDict [(''p'', JList [])], None)
   \<and> length ([] :: json list) < length [JStr ''x'']
   \<and> create_metadata_of_a_property (JDict [(''p'', JList [])]) ''p.q'' [Array, Value]
         (JList [JStr ''x''])
       = (JDict [(''p'', JList [JDict [(''q'', JStr ''x'')]])], None)
   \<and> length [JDict [], JDict []] < length [JList [JInt 1], JInt 2, JList [JInt 3]]
   \<and> create_metadata_of_a_property (JDict [(''p'', JList [JDict [], JDict []])]) ''p.q.r''
         [Array, Array, Value] (JList [JList [JInt 1], JInt 2, JList [JInt 3]])
       = (JDict [(''p'', JList [JDict [(''q'', JList [JDict [(''r'', JInt 1)]])], JDict []])],
          Some (WekoSwordserverException NumArrayMustBeZero))"
  by (simp add: create_metadata_of_a_property_def reconcile_dimensions_def ensure_def
      dict_get_def write_leaf_def)

text \<open>
  Claim C10, amended: when the builder reaches an \<open>Array\<close> segment with
  \<^verbatim>\<open>diff_array\<close> 0 and the tree holds at that key a non-empty list shorter than the list
  being written, it never returns normally and never changes the length of that list.
  It runs the child builder on the elements the list has, in the order of their
  indices, each with the element of the value at the same index. If all of these return
  normally, every element of the list is as its run left it, and the builder raises
  \<^verbatim>\<open>IndexError\<close> (not the module's exception) at the first index past the end. If one of
  them raises, the elements up to and including that one are as their runs left them,
  the elements after it are as they were, and that exception is the one raised. With
  one key left below the segment and a list of objects, element \<open>i\<close> has that key set to
  \<^verbatim>\<open>v[i]\<close> (and is unchanged where \<^verbatim>\<open>v[i]\<close> is null) and the exception is \<^verbatim>\<open>IndexError\<close>.
  An entry that is falsy, the empty list among them, is replaced: the builder does what
  it does on the tree that holds at the key a new list of \<^verbatim>\<open>len(v)\<close> empty objects, and
  the list it leaves has the length of the value.

  The parts below are: the top-level builder at such a segment is the child builder with
  \<^verbatim>\<open>diff_array\<close> 0; the non-empty shorter list; the list of objects with one key left
  (child builder, then top-level builder); the falsy entry.
\<close>

theorem shorter_list_fails:
  "(split_dot key = k # k2 # ks
      \<and> count_list (Array # ts) Array = get_dimensions (JList vs) \<longrightarrow>
    create_metadata_of_a_property metadata key (Array # ts) (JList vs)
      = create_child_metadata_of_a_property 0 metadata (k # k2 # ks) (Array # ts) (JList vs))
   \<and> (\<not> 0 < d \<and> dict_get kvs k = JList lst \<and> lst \<noteq> [] \<and> length lst < length vs \<longrightarrow>
       (\<exists>lst' e.
          create_child_metadata_of_a_property d (JDict kvs) (k # k2 # ks) (Array # ts) (JList vs)
            = (JDict (dict_set kvs k (JList lst')), Some e)
          \<and> length lst' = length lst
          \<and> ((e = IndexError
                \<and> (\<forall>m<length lst.
                      create_child_metadata_of_a_property d (lst ! m) (k2 # ks) ts (vs ! m)
                        = (lst' ! m, None)))
               \<or> (\<exists>j<length lst.
                     create_child_metadata_of_a_property d (lst ! j) (k2 # ks) ts (vs ! j)
                       = (lst' ! j, Some e)
                     \<and> (\<forall>m<j.
                           create_child_metadata_of_a_property d (lst ! m) (k2 # ks) ts (vs ! m)
                             = (lst' ! m, None))
                     \<and> (\<forall>m. j < m \<and> m < length lst \<longrightarrow> lst' ! m = lst ! m)))))
   \<and> (\<not> 0 < d \<and> dict_get kvs k = JList (map JDict ds) \<and> ds \<noteq> []
        \<and> length ds < length vs \<longrightarrow>
       create_child_metadata_of_a_property d (JDict kvs) [k, k2] (Array # ts) (JList vs)
         = (JDict (dict_set kvs k
              (JList (map2 (\<lambda>kv v. JDict (if v = JNull then kv else dict_set kv k2 v)) ds vs))),
            Some IndexError))
   \<and> (split_dot key = [k, k2] \<and> count_list (Array # ts) Array = get_dimensions (JList vs)
        \<and> dict_get kvs k = JList (map JDict ds) \<and> ds \<noteq> [] \<and> length ds < length vs \<longrightarrow>
       create_metadata_of_a_property (JDict kvs) key (Array # ts) (JList vs)
         = (JDict (dict_set kvs k
              (JList (map2 (\<lambda>kv v. JDict (if v = JNull then kv else dict_set kv k2 v)) ds vs))),
            Some IndexError))
   \<and> (\<not> 0 < d \<and> \<not> truthy (dict_get kvs k) \<longrightarrow>
       create_child_metadata_of_a_property d (JDict kvs) (k # k2 # ks) (Array # ts) (JList vs)
         = create_child_metadata_of_a_property d
             (JDict (dict_set kvs k (JList (replicate (length vs) (JDict [])))))
             (k # k2 # ks) (Array # ts) (JList vs)
       \<and> (\<exists>l err.
            create_child_metadata_of_a_property d (JDict kvs) (k # k2 # ks) (Array # ts)
                (JList vs)
              = (JDict (dict_set kvs k (JList l)), err)
            \<and> length l = length vs)
       \<and> create_child_metadata_of_a_property d (JDict kvs) [k, k2] (Array # ts) (JList vs)
           = (JDict (dict_set kvs k
                (JList (map (\<lambda>v. if v = JNull then JDict [] else JDict [(k2, v)]) vs))),
              None))"
proof (intro conjI impI)
  assume "split_dot key = k # k2 # ks
      \<and> count_list (Array # ts) Array = get_dimensions (JList vs)"
  then show "create_metadata_of_a_property metadata key (Array # ts) (JList vs)
      = create_child_metadata_of_a_property 0 metadata (k # k2 # ks) (Array # ts) (JList vs)"
    by (simp add: top_is_child_at_zero del: create_child_metadata_of_a_property.simps)
next
  assume "\<not> 0 < d \<and> dict_get kvs k = JList lst \<and> lst \<noteq> [] \<and> length lst < length vs"
  then show "\<exists>lst' e.
          create_child_metadata_of_a_property d (JDict kvs) (k # k2 # ks) (Array # ts) (JList vs)
            = (JDict (dict_set kvs k (JList lst')), Some e)
          \<and> length lst' = length lst
          \<and> ((e = IndexError
                \<and> (\<forall>m<length lst.
                      create_child_metadata_of_a_property d (lst ! m) (k2 # ks) ts (vs ! m)
                        = (lst' ! m, None)))
               \<or> (\<exists>j<length lst.
                     create_child_metadata_of_a_property d (lst ! j) (k2 # ks) ts (vs ! j)
                       = (lst' ! j, Some e)
                     \<and> (\<forall>m<j.
                           create_child_metadata_of_a_property d (lst ! m) (k2 # ks) ts (vs ! m)
                             = (lst' ! m, None))
                     \<and> (\<forall>m. j < m \<and> m < length lst \<longrightarrow> lst' ! m = lst ! m)))"
    using child_short_list_exact [of kvs k lst vs d k2 ks ts] by blast
next
  assume "\<not> 0 < d \<and> dict_get kvs k = JList (map JDict ds) \<and> ds \<noteq> []
        \<and> length ds < length vs"
  then show "create_child_metadata_of_a_property d (JDict kvs) [k, k2] (Array # ts) (JList vs)
         = (JDict (dict_set kvs k
              (JList (map2 (\<lambda>kv v. JDict (if v = JNull then kv else dict_set kv k2 v)) ds vs))),
            Some IndexError)"
    using child_short_list_objects [of kvs k ds vs d k2 ts] by blast
next
  assume a: "split_dot key = [k, k2] \<and> count_list (Array # ts) Array = get_dimensions (JList vs)
        \<and> dict_get kvs k = JList (map JDict ds) \<and> ds \<noteq> [] \<and> length ds < length vs"
  then have "create_metadata_of_a_property (JDict kvs) key (Array # ts) (JList vs)
      = create_child_metadata_of_a_property 0 (JDict kvs) [k, k2] (Array # ts) (JList vs)"
    using top_is_child_at_zero [of key k k2 "[]" ts vs "JDict kvs"] by blast
  moreover have "\<not> 0 < (0::int)" by simp
  ultimately show "create_metadata_of_a_property (JDict kvs) key (Array # ts) (JList vs)
         = (JDict (dict_set kvs k
              (JList (map2 (\<lambda>kv v. JDict (if v = JNull then kv else dict_set kv k2 v)) ds vs))),
            Some IndexError)"
    using a child_short_list_objects [of kvs k ds vs 0 k2 ts] by metis
next
  assume "\<not> 0 < d \<and> \<not> truthy (dict_get kvs k)"
  then show "create_child_metadata_of_a_property d (JDict kvs) (k # k2 # ks) (Array # ts)
          (JList vs)
         = create_child_metadata_of_a_property d
             (JDict (dict_set kvs k (JList (replicate (length vs) (JDict [])))))
             (k # k2 # ks) (Array # ts) (JList vs)"
    using child_falsy_replaced(1) [of kvs k d k2 ks ts vs] by blast
next
  assume "\<not> 0 < d \<and> \<not> truthy (dict_get kvs k)"
  then show "\<exists>l err.
            create_child_metadata_of_a_property d (JDict kvs) (k # k2 # ks) (Array # ts)
                (JList vs)
              = (JDict (dict_set kvs k (JList l)), err)
            \<and> length l = length vs"
    using child_falsy_replaced(2) [of kvs k d k2 ks ts vs] by blast
next
  assume "\<not> 0 < d \<and> \<not> truthy (dict_get kvs k)"
  then show "create_child_metadata_of_a_property d (JDict kvs) [k, k2] (Array # ts) (JList vs)
           = (JDict (dict_set kvs k
                (JList (map (\<lambda>v. if v = JNull then JDict [] else JDict [(k2, v)]) vs))),
              None)"
    using child_falsy_two_keys [of kvs k d k2 ts vs] by blast
qed

theorem shorter_list_fails_witness:
  "split_dot ''p.q'' = [''p'', ''q'']
   \<and> count_list [Array, Value] Array = get_dimensions (JList [JStr ''x'', JNull, JStr ''z''])
   \<and> dict_get [(''p'', JList [JDict [], JDict [(''q'', JInt 1)]])] ''p''
       = JList (map JDict [[], [(''q'', JInt 1)]])
   \<and> length [[], [(''q'', JInt 1)]] < length [JStr ''x'', JNull, JStr ''z'']
   \<and> create_metadata_of_a_property (JDict [(''p'', JList [JDict [], JDict [(''q'', JInt 1)]])])
         ''p.q'' [Array, Value] (JList [JStr ''x'', JNull, JStr ''z''])
       = (JDict [(''p'', JList [JDict [(''q'', JStr ''x'')], JDict [(''q'', JInt 1)]])],
          Some IndexError)
   \<and> \<not> truthy (dict_get [(''p'', JList [])] ''p'')
   \<and> create_child_metadata_of_a_property 0 (JDict [(''p'', JList [])]) [''p'', ''q'']
         [Array, Value] (JList [JStr ''x''])
       = (JDict [(''p'', JList [JDict [(''q'', JStr ''x'')]])], None)"
proof -
  have a: "split_dot ''p.q'' = [''p'', ''q'']" by simp
  have b: "count_list [Array, Value] Array
             = get_dimensions (JList [JStr ''x'', JNull, JStr ''z''])" by simp
  have c: "dict_get [(''p'', JList [JDict [], JDict [(''q'', JInt 1)]])] ''p''
             = JList (map JDict [[], [(''q'', JInt 1)]])" by (simp add: dict_get_def)
  have d: "length [[], [(''q'', JInt 1)]] < length [JStr ''x'', JNull, JStr ''z'']" by simp
  have e: "\<not> truthy (dict_get [(''p'', JList [])] ''p'')" by (simp add: dict_get_def)
  have z: "\<not> 0 < (0::int)" by simp
  from shorter_list_fails [of "''p.q''" "''p''" "''q''" "[]" "[Value]"
      "[JStr ''x'', JNull, JStr ''z'']" "JDict []" 0
      "[(''p'', JList [JDict [], JDict [(''q'', JInt 1)]])]" "[]" "[[], [(''q'', JInt 1)]]"]
  have 1: "create_metadata_of_a_property
             (JDict [(''p'', JList [JDict [], JDict [(''q'', JInt 1)]])])
             ''p.q'' [Array, Value] (JList [JStr ''x'', JNull, JStr ''z''])
           = (JDict [(''p'', JList [JDict [(''q'', JStr ''x'')], JDict [(''q'', JInt 1)]])],
              Some IndexError)"
    using a b c d by simp
  from shorter_list_fails [of "''p.q''" "''p''" "''q''" "[]" "[Value]" "[JStr ''x'']"
      "JDict []" 0 "[(''p'', JList [])]" "[]" "[]"]
  have "create_child_metadata_of_a_property 0 (JDict [(''p'', JList [])]) [''p'', ''q'']
             [Array, Value] (JList [JStr ''x''])
           = (JDict (dict_set [(''p'', JList [])] ''p''
                (JList (map (\<lambda>v. if v = JNull then JDict [] else JDict [(''q'', v)])
                         [JStr ''x'']))),
              None)"
    using e z by blast
  then have 2: "create_child_metadata_of_a_property 0 (JDict [(''p'', JList [])]) [''p'', ''q'']
             [Array, Value] (JList [JStr ''x''])
           = (JDict [(''p'', JList [JDict [(''q'', JStr ''x'')]])], None)"
    by (simp del: create_child_metadata_of_a_property.simps create_child_each.simps)
  from a b c d e 1 2 show ?thesis by blast
qed

end
